theory Spec2Isabelle
  imports Main "HOL-Library.Log_Nat"
begin

section \<open>MindSpace: appointments and mood tracking over an IndexedDB store\<close>

text \<open>
  The development embeds \<^verbatim>\<open>appointments.js\<close>, the \<^verbatim>\<open>DateUtils\<close> and \<^verbatim>\<open>MoodUtils\<close>
  objects of \<^verbatim>\<open>utils.js\<close>, \<^verbatim>\<open>mood-tracker.js\<close>, \<^verbatim>\<open>TherapistManager.isConnected\<close> and the
  CRUD methods of \<^verbatim>\<open>db.js\<close>. Asynchronous methods become functions that take the store
  and return their result together with the store they leave behind; a rejected promise
  is the value \<open>Rejected\<close>, and every \<^verbatim>\<open>try/catch\<close> of the source is a case split on it.
\<close>

subsection \<open>The JavaScript runtime: dates and the clock\<close>

text \<open>
  \<^verbatim>\<open>Date\<close> belongs to the runtime, not to the repository, so it is a parameter of the model.
  A \<^verbatim>\<open>Date\<close> object is its time value: \<open>Some t\<close> for \<open>t\<close> milliseconds since the
  epoch, \<open>None\<close> for an Invalid Date (time value NaN). Every comparison with NaN is false.
  \<^item> \<open>parse s\<close> is \<^verbatim>\<open>new Date(s)\<close>;
  \<^item> \<open>now\<close> is \<^verbatim>\<open>new Date()\<close> and \<open>nowISO\<close> is \<^verbatim>\<open>new Date().toISOString()\<close>;
  \<^item> \<open>startOfDay t\<close> is the time value after \<^verbatim>\<open>setHours(0, 0, 0, 0)\<close> on a valid date;
  \<^item> \<open>getDay s\<close> is \<^verbatim>\<open>new Date(s).getDay()\<close>, \<open>None\<close> for NaN.
\<close>

record clock =
  parse :: "string \<Rightarrow> int option"
  now :: int
  nowISO :: string
  startOfDay :: "int \<Rightarrow> int"
  getDay :: "string \<Rightarrow> nat option"

text \<open>\<^verbatim>\<open>new Date(v)\<close> for a number \<open>v\<close>: TimeClip makes the date invalid beyond 8.64e15 ms.\<close>

definition newDate :: "int \<Rightarrow> int option" where
  "newDate v = (if \<bar>v\<bar> \<le> 8640000000000000 then Some v else None)"

text \<open>\<^verbatim>\<open>a < b\<close> and \<^verbatim>\<open>a > b\<close> on two dates (false as soon as one is invalid).\<close>

definition date_lt :: "int option \<Rightarrow> int option \<Rightarrow> bool" where
  "date_lt a b = (case a of None \<Rightarrow> False | Some x \<Rightarrow> (case b of None \<Rightarrow> False | Some y \<Rightarrow> x < y))"

definition date_gt :: "int option \<Rightarrow> int option \<Rightarrow> bool" where
  "date_gt a b = date_lt b a"

text \<open>
  \<^verbatim>\<open>a - b\<close> on two dates, as a sort comparator reads it: a NaN result counts as \<open>+0\<close>.
\<close>

definition date_diff :: "int option \<Rightarrow> int option \<Rightarrow> int" where
  "date_diff a b = (case a of None \<Rightarrow> 0 | Some x \<Rightarrow> (case b of None \<Rightarrow> 0 | Some y \<Rightarrow> x - y))"

text \<open>
  \<^verbatim>\<open>Array.prototype.sort(cmp)\<close> is stable; for a consistent comparator every stable sort
  gives the result of this insertion sort (for an inconsistent one, which only invalid
  dates can cause here, the order is left to the engine, the elements are not).
\<close>

fun insert_cmp :: "('a \<Rightarrow> 'a \<Rightarrow> int) \<Rightarrow> 'a \<Rightarrow> 'a list \<Rightarrow> 'a list" where
  "insert_cmp cmp x [] = [x]"
| "insert_cmp cmp x (y # ys) = (if cmp x y \<le> 0 then x # y # ys else y # insert_cmp cmp x ys)"

definition js_sort :: "('a \<Rightarrow> 'a \<Rightarrow> int) \<Rightarrow> 'a list \<Rightarrow> 'a list" where
  "js_sort cmp xs = foldr (insert_cmp cmp) xs []"

subsection \<open>Stored objects\<close>

record appointment =
  apt_id :: nat
  apt_userId :: nat
  apt_therapistId :: nat
  apt_date :: string
  apt_time :: string
  apt_duration :: int
  apt_type :: string
  apt_status :: string
  apt_notes :: string
  apt_createdAt :: string
  apt_cancelledAt :: "string option"

record mood =
  mood_id :: nat
  mood_userId :: nat
  mood_mood :: string
  mood_intensity :: int
  mood_notes :: "string option"
  mood_date :: string
  mood_timestamp :: string

record therapist =
  th_id :: nat
  availability :: "string list"

record connection =
  conn_userId :: nat
  conn_therapistId :: nat
  conn_status :: string

subsection \<open>db.js: the object stores\<close>

text \<open>
  Every object store has key path \<^verbatim>\<open>id\<close> with \<^verbatim>\<open>autoIncrement\<close>; a store is the list of its
  records in key order, with its key generator. \<^verbatim>\<open>ensureReady\<close> awaits the cached
  \<^verbatim>\<open>readyPromise\<close>: when \<^verbatim>\<open>indexedDB.open\<close> failed, every operation rejects
  (\<open>opened = False\<close>).
\<close>

datatype 'a promise = Rejected | Resolved 'a

record db =
  opened :: bool
  therapists :: "therapist list"
  userTherapists :: "connection list"
  appointments :: "appointment list"
  appointments_next :: nat
  moods :: "mood list"
  moods_next :: nat

text \<open>\<^verbatim>\<open>store.put\<close>: replace the record with the same key, or insert in key order.\<close>

fun put_by :: "('a \<Rightarrow> nat) \<Rightarrow> 'a \<Rightarrow> 'a list \<Rightarrow> 'a list" where
  "put_by key x [] = [x]"
| "put_by key x (y # ys) =
     (if key y = key x then x # ys
      else if key x < key y then x # y # ys
      else y # put_by key x ys)"

text \<open>\<^verbatim>\<open>mindspaceDB.get(storeName, key)\<close>: \<open>None\<close> is \<^verbatim>\<open>undefined\<close>.\<close>

definition get_appointment :: "db \<Rightarrow> nat \<Rightarrow> appointment option promise" where
  "get_appointment d k =
     (if \<not> opened d then Rejected
      else Resolved (find (\<lambda>a. apt_id a = k) (appointments d)))"

definition get_therapist :: "db \<Rightarrow> nat \<Rightarrow> therapist option promise" where
  "get_therapist d k =
     (if \<not> opened d then Rejected
      else Resolved (find (\<lambda>t. th_id t = k) (therapists d)))"

text \<open>\<^verbatim>\<open>mindspaceDB.getByIndex(storeName, indexName, value)\<close>.\<close>

definition appointments_by_userId :: "db \<Rightarrow> nat \<Rightarrow> appointment list promise" where
  "appointments_by_userId d u =
     (if \<not> opened d then Rejected
      else Resolved (filter (\<lambda>a. apt_userId a = u) (appointments d)))"

definition appointments_by_therapistId :: "db \<Rightarrow> nat \<Rightarrow> appointment list promise" where
  "appointments_by_therapistId d t =
     (if \<not> opened d then Rejected
      else Resolved (filter (\<lambda>a. apt_therapistId a = t) (appointments d)))"

definition moods_by_userId :: "db \<Rightarrow> nat \<Rightarrow> mood list promise" where
  "moods_by_userId d u =
     (if \<not> opened d then Rejected
      else Resolved (filter (\<lambda>m. mood_userId m = u) (moods d)))"

definition userTherapists_by_userId :: "db \<Rightarrow> nat \<Rightarrow> connection list promise" where
  "userTherapists_by_userId d u =
     (if \<not> opened d then Rejected
      else Resolved (filter (\<lambda>c. conn_userId c = u) (userTherapists d)))"

text \<open>
  \<^verbatim>\<open>mindspaceDB.add(storeName, data)\<close> for an object without \<^verbatim>\<open>id\<close>: the key generator
  supplies the key; a key already in the store is a ConstraintError.
\<close>

definition add_appointment :: "db \<Rightarrow> appointment \<Rightarrow> (nat \<times> db) promise" where
  "add_appointment d a =
     (let k = appointments_next d in
      if \<not> opened d \<or> k \<in> apt_id ` set (appointments d) then Rejected
      else Resolved (k, d\<lparr>appointments := put_by apt_id (a\<lparr>apt_id := k\<rparr>) (appointments d),
                           appointments_next := k + 1\<rparr>))"

definition add_mood :: "db \<Rightarrow> mood \<Rightarrow> (nat \<times> db) promise" where
  "add_mood d m =
     (let k = moods_next d in
      if \<not> opened d \<or> k \<in> mood_id ` set (moods d) then Rejected
      else Resolved (k, d\<lparr>moods := put_by mood_id (m\<lparr>mood_id := k\<rparr>) (moods d),
                           moods_next := k + 1\<rparr>))"

text \<open>
  \<^verbatim>\<open>mindspaceDB.update(storeName, data)\<close> is \<^verbatim>\<open>store.put(data)\<close> for an object that carries
  its \<^verbatim>\<open>id\<close>; a key at or beyond the generator moves the generator past it.
\<close>

definition update_appointment :: "db \<Rightarrow> appointment \<Rightarrow> (nat \<times> db) promise" where
  "update_appointment d a =
     (if \<not> opened d then Rejected
      else Resolved (apt_id a, d\<lparr>appointments := put_by apt_id a (appointments d),
                                  appointments_next := max (appointments_next d) (apt_id a + 1)\<rparr>))"

definition update_mood :: "db \<Rightarrow> mood \<Rightarrow> (nat \<times> db) promise" where
  "update_mood d m =
     (if \<not> opened d then Rejected
      else Resolved (mood_id m, d\<lparr>moods := put_by mood_id m (moods d),
                                   moods_next := max (moods_next d) (mood_id m + 1)\<rparr>))"

subsection \<open>Results handed to the caller\<close>

text \<open>
  The objects \<^verbatim>\<open>{ success: false, message }\<close> and \<^verbatim>\<open>{ success: true, [id,] message }\<close>.
\<close>

datatype response = Failure string | Success "nat option" string

subsection \<open>appointments.js: the lifecycle operations\<close>

text \<open>\<^verbatim>\<open>AppointmentManager.cancelAppointment(appointmentId)\<close>.\<close>

definition cancelAppointment :: "clock \<Rightarrow> db \<Rightarrow> nat \<Rightarrow> response \<times> db" where
  "cancelAppointment clk d appointmentId =
     (case get_appointment d appointmentId of
        Rejected \<Rightarrow> (Failure ''Failed to cancel appointment'', d)
      | Resolved None \<Rightarrow> (Failure ''Appointment not found'', d)
      | Resolved (Some appointment) \<Rightarrow>
          if apt_status appointment = ''cancelled''
          then (Failure ''Appointment is already cancelled'', d)
          else (case update_appointment d
                       (appointment\<lparr>apt_status := ''cancelled'',
                                     apt_cancelledAt := Some (nowISO clk)\<rparr>) of
                  Rejected \<Rightarrow> (Failure ''Failed to cancel appointment'', d)
                | Resolved (k, d') \<Rightarrow> (Success None ''Appointment cancelled successfully'', d')))"

text \<open>
  The argument of \<^verbatim>\<open>bookAppointment\<close>; an absent field (\<^verbatim>\<open>undefined\<close>) is \<open>None\<close>.
\<close>

record appointmentData =
  ad_therapistId :: nat
  ad_date :: string
  ad_time :: string
  ad_duration :: "int option"
  ad_type :: "string option"
  ad_notes :: "string option"

text \<open>\<^verbatim>\<open>x || dflt\<close> on a number and on a string: \<^verbatim>\<open>undefined\<close>, \<^verbatim>\<open>0\<close> and the empty string are falsy.\<close>

definition or_number :: "int option \<Rightarrow> int \<Rightarrow> int" where
  "or_number x dflt = (case x of None \<Rightarrow> dflt | Some n \<Rightarrow> if n = 0 then dflt else n)"

definition or_string :: "string option \<Rightarrow> string \<Rightarrow> string" where
  "or_string x dflt = (case x of None \<Rightarrow> dflt | Some s \<Rightarrow> if s = [] then dflt else s)"

text \<open>\<^verbatim>\<open>TherapistManager.isConnected(userId, therapistId)\<close>.\<close>

definition isConnected :: "db \<Rightarrow> nat \<Rightarrow> nat \<Rightarrow> bool" where
  "isConnected d userId therapistId =
     (case userTherapists_by_userId d userId of
        Rejected \<Rightarrow> False
      | Resolved connections \<Rightarrow>
          list_ex (\<lambda>conn. conn_therapistId conn = therapistId \<and> conn_status conn = ''active'')
            connections)"

text \<open>\<^verbatim>\<open>AppointmentManager.isSlotAvailable(therapistId, date, time)\<close>.\<close>

definition isSlotAvailable :: "db \<Rightarrow> nat \<Rightarrow> string \<Rightarrow> string \<Rightarrow> bool" where
  "isSlotAvailable d therapistId date time =
     (case appointments_by_therapistId d therapistId of
        Rejected \<Rightarrow> False
      | Resolved apts \<Rightarrow>
          (case find (\<lambda>apt. apt_date apt = date \<and> apt_time apt = time
                            \<and> apt_status apt \<noteq> ''cancelled'') apts of
             None \<Rightarrow> True
           | Some conflict \<Rightarrow> False))"

text \<open>\<^verbatim>\<open>AppointmentManager.bookAppointment(userId, appointmentData)\<close>.\<close>

definition bookAppointment :: "clock \<Rightarrow> db \<Rightarrow> nat \<Rightarrow> appointmentData \<Rightarrow> response \<times> db" where
  "bookAppointment clk d userId appointmentData =
     (if \<not> isConnected d userId (ad_therapistId appointmentData)
      then (Failure ''You must be connected with this therapist first'', d)
      else if \<not> isSlotAvailable d (ad_therapistId appointmentData)
                   (ad_date appointmentData) (ad_time appointmentData)
      then (Failure ''This time slot is no longer available'', d)
      else (case add_appointment d
                   \<lparr>apt_id = 0,
                    apt_userId = userId,
                    apt_therapistId = ad_therapistId appointmentData,
                    apt_date = ad_date appointmentData,
                    apt_time = ad_time appointmentData,
                    apt_duration = or_number (ad_duration appointmentData) 50,
                    apt_type = or_string (ad_type appointmentData) ''Regular Session'',
                    apt_status = ''confirmed'',
                    apt_notes = or_string (ad_notes appointmentData) [],
                    apt_createdAt = nowISO clk,
                    apt_cancelledAt = None\<rparr> of
              Rejected \<Rightarrow> (Failure ''Failed to book appointment'', d)
            | Resolved (appointmentId, d') \<Rightarrow>
                (Success (Some appointmentId) ''Appointment booked successfully'', d')))"

subsection \<open>appointments.js: the three queries\<close>

text \<open>
  The filters read the clock once for every appointment; the model takes one instant
  \<open>now\<close> for a whole query, and statements about several queries take the same instant
  for all of them.
\<close>

text \<open>\<^verbatim>\<open>new Date(apt.date + ' ' + apt.time)\<close>.\<close>

definition aptDateTime :: "clock \<Rightarrow> appointment \<Rightarrow> int option" where
  "aptDateTime clk apt = parse clk (apt_date apt @ '' '' @ apt_time apt)"

text \<open>\<^verbatim>\<open>AppointmentManager.getUpcomingAppointments(userId)\<close>.\<close>

definition getUpcomingAppointments :: "clock \<Rightarrow> db \<Rightarrow> nat \<Rightarrow> appointment list" where
  "getUpcomingAppointments clk d userId =
     (case appointments_by_userId d userId of
        Rejected \<Rightarrow> []
      | Resolved allAppointments \<Rightarrow>
          js_sort (\<lambda>a b. date_diff (aptDateTime clk a) (aptDateTime clk b))
            (filter (\<lambda>apt. date_gt (aptDateTime clk apt) (Some (now clk))
                            \<and> apt_status apt = ''confirmed'') allAppointments))"

text \<open>\<^verbatim>\<open>AppointmentManager.getPastAppointments(userId)\<close>.\<close>

definition getPastAppointments :: "clock \<Rightarrow> db \<Rightarrow> nat \<Rightarrow> appointment list" where
  "getPastAppointments clk d userId =
     (case appointments_by_userId d userId of
        Rejected \<Rightarrow> []
      | Resolved allAppointments \<Rightarrow>
          js_sort (\<lambda>a b. date_diff (aptDateTime clk b) (aptDateTime clk a))
            (filter (\<lambda>apt. date_lt (aptDateTime clk apt) (Some (now clk))
                            \<or> apt_status apt = ''completed'') allAppointments))"

text \<open>\<^verbatim>\<open>AppointmentManager.getCancelledAppointments(userId)\<close>.\<close>

definition getCancelledAppointments :: "clock \<Rightarrow> db \<Rightarrow> nat \<Rightarrow> appointment list" where
  "getCancelledAppointments clk d userId =
     (case appointments_by_userId d userId of
        Rejected \<Rightarrow> []
      | Resolved allAppointments \<Rightarrow>
          js_sort (\<lambda>a b. date_diff (aptDateTime clk b) (aptDateTime clk a))
            (filter (\<lambda>apt. apt_status apt = ''cancelled'') allAppointments))"

subsection \<open>appointments.js: the interval conflict check\<close>

text \<open>\<^verbatim>\<open>AppointmentManager.getAppointmentsByDate(userId, date)\<close>: its own \<^verbatim>\<open>catch\<close> returns \<^verbatim>\<open>[]\<close>.\<close>

definition getAppointmentsByDate :: "db \<Rightarrow> nat \<Rightarrow> string \<Rightarrow> appointment list" where
  "getAppointmentsByDate d userId date =
     (case appointments_by_userId d userId of
        Rejected \<Rightarrow> []
      | Resolved allAppointments \<Rightarrow> filter (\<lambda>apt. apt_date apt = date) allAppointments)"

text \<open>\<^verbatim>\<open>new Date(start.getTime() + duration * 60000)\<close>; NaN stays NaN.\<close>

definition endOf :: "int option \<Rightarrow> int \<Rightarrow> int option" where
  "endOf start duration =
     (case start of None \<Rightarrow> None | Some t \<Rightarrow> newDate (t + duration * 60000))"

text \<open>The \<^verbatim>\<open>for (const apt of appointments)\<close> loop of \<^verbatim>\<open>hasConflict\<close>.\<close>

fun conflictLoop :: "clock \<Rightarrow> int option \<Rightarrow> int option \<Rightarrow> appointment list \<Rightarrow> bool" where
  "conflictLoop clk startTime endTime [] = False"
| "conflictLoop clk startTime endTime (apt # apts) =
     (if apt_status apt = ''cancelled'' then conflictLoop clk startTime endTime apts
      else let aptStart = aptDateTime clk apt;
               aptEnd = endOf aptStart (apt_duration apt)
           in if date_lt startTime aptEnd \<and> date_gt endTime aptStart then True
              else conflictLoop clk startTime endTime apts)"

text \<open>
  \<^verbatim>\<open>AppointmentManager.hasConflict(userId, date, time, duration)\<close>. Nothing inside the
  \<^verbatim>\<open>try\<close> block can throw: the only store access is \<^verbatim>\<open>getAppointmentsByDate\<close>, which
  catches its own errors, so the \<^verbatim>\<open>catch\<close> branch (\<^verbatim>\<open>return true\<close>) has no case here.
\<close>

definition hasConflict :: "clock \<Rightarrow> db \<Rightarrow> nat \<Rightarrow> string \<Rightarrow> string \<Rightarrow> int \<Rightarrow> bool" where
  "hasConflict clk d userId date time duration =
     (let appointments = getAppointmentsByDate d userId date;
          startTime = parse clk (date @ '' '' @ time);
          endTime = endOf startTime duration
      in conflictLoop clk startTime endTime appointments)"

subsection \<open>utils.js: the slot generator\<close>

text \<open>\<^verbatim>\<open>Number.prototype.toString()\<close> on an integer.\<close>

fun show_nat :: "nat \<Rightarrow> string" where
  "show_nat n =
     (if n < 10 then [''0123456789'' ! n]
      else show_nat (n div 10) @ [''0123456789'' ! (n mod 10)])"

definition toString :: "int \<Rightarrow> string" where
  "toString i = (if i < 0 then CHR ''-'' # show_nat (nat (- i)) else show_nat (nat i))"

text \<open>\<^verbatim>\<open>s.padStart(2, '0')\<close>.\<close>

definition padStart2 :: "string \<Rightarrow> string" where
  "padStart2 s = replicate (2 - length s) CHR ''0'' @ s"

text \<open>\<^verbatim>\<open>a % b\<close> takes the sign of the dividend.\<close>

definition js_rem :: "int \<Rightarrow> int \<Rightarrow> int" where
  "js_rem a b = (if a < 0 then - ((- a) mod \<bar>b\<bar>) else a mod \<bar>b\<bar>)"

text \<open>The template string of one slot, from \<^verbatim>\<open>currentTime\<close> in minutes.\<close>

definition slotString :: "int \<Rightarrow> string" where
  "slotString currentTime =
     (let hours = currentTime div 60;
          minutes = js_rem currentTime 60
      in padStart2 (toString hours) @ '':'' @ padStart2 (toString minutes))"

text \<open>
  The \<^verbatim>\<open>while (currentTime + duration <= endTime)\<close> loop. The source has no bound on the
  number of rounds, so the loop is a partial function: \<open>None\<close> means it never returns.
\<close>

partial_function (option) slotLoop :: "int \<Rightarrow> int \<Rightarrow> int \<Rightarrow> string list \<Rightarrow> string list option" where
  "slotLoop duration endTime currentTime slots =
     (if currentTime + duration \<le> endTime
      then slotLoop duration endTime (currentTime + duration) (slots @ [slotString currentTime])
      else Some slots)"

text \<open>
  \<^verbatim>\<open>DateUtils.generateTimeSlots(startHour, endHour, duration)\<close>. The default values
  (9, 17, 50) stand in for absent arguments only; every call in the repository passes all
  three.
\<close>

declare slotLoop.simps [code]

definition generateTimeSlots :: "int \<Rightarrow> int \<Rightarrow> int \<Rightarrow> string list option" where
  "generateTimeSlots startHour endHour duration =
     slotLoop duration (endHour * 60) (startHour * 60) []"

subsection \<open>appointments.js: the availability resolver\<close>

text \<open>\<^verbatim>\<open>DateUtils.getDayOfWeek(date)\<close>; \<^verbatim>\<open>days[NaN]\<close> is \<^verbatim>\<open>undefined\<close>.\<close>

definition days :: "string list" where
  "days = [''Sunday'', ''Monday'', ''Tuesday'', ''Wednesday'', ''Thursday'', ''Friday'',
           ''Saturday'']"

definition getDayOfWeek :: "clock \<Rightarrow> string \<Rightarrow> string option" where
  "getDayOfWeek clk date =
     (case getDay clk date of
        None \<Rightarrow> None
      | Some i \<Rightarrow> if i < length days then Some (days ! i) else None)"

text \<open>\<^verbatim>\<open>array.includes(x)\<close> for an \<open>x\<close> that may be \<^verbatim>\<open>undefined\<close>.\<close>

definition array_includes :: "string list \<Rightarrow> string option \<Rightarrow> bool" where
  "array_includes xs x = (case x of None \<Rightarrow> False | Some s \<Rightarrow> s \<in> set xs)"

text \<open>
  \<^verbatim>\<open>AppointmentManager.getAvailableSlots(therapistId, date, duration = 50)\<close>. The result is
  \<open>None\<close> when the slot generator does not return.
\<close>

definition getAvailableSlots :: "clock \<Rightarrow> db \<Rightarrow> nat \<Rightarrow> string \<Rightarrow> int option \<Rightarrow> string list option" where
  "getAvailableSlots clk d therapistId date duration_arg =
     (let duration = (case duration_arg of None \<Rightarrow> 50 | Some n \<Rightarrow> n) in
      case get_therapist d therapistId of
        Rejected \<Rightarrow> Some []
      | Resolved None \<Rightarrow> Some []
      | Resolved (Some therapist) \<Rightarrow>
          if \<not> array_includes (availability therapist) (getDayOfWeek clk date) then Some []
          else (case generateTimeSlots 9 17 duration of
                  None \<Rightarrow> None
                | Some allSlots \<Rightarrow>
                    (case appointments_by_therapistId d therapistId of
                       Rejected \<Rightarrow> Some []
                     | Resolved allAppointments \<Rightarrow>
                         let dateAppointments =
                               filter (\<lambda>apt. apt_date apt = date \<and> apt_status apt \<noteq> ''cancelled'')
                                 allAppointments;
                             bookedTimes = map apt_time dateAppointments
                         in Some (filter (\<lambda>slot. slot \<notin> set bookedTimes) allSlots))))"

subsection \<open>mood-tracker.js: logging a mood\<close>

text \<open>The \<^verbatim>\<open>name\<close> fields of \<^verbatim>\<open>MoodUtils.moodCategories\<close>, in the order of the source.\<close>

definition moodCategories :: "string list" where
  "moodCategories = [''Happy'', ''Sad'', ''Anxious'', ''Angry'', ''Calm'', ''Stressed'',
                     ''Energetic'', ''Tired'', ''Hopeful'', ''Overwhelmed'']"

text \<open>\<^verbatim>\<open>MoodUtils.getMoodByName(name)\<close>; \<open>None\<close> is \<^verbatim>\<open>undefined\<close>.\<close>

definition getMoodByName :: "string \<Rightarrow> string option" where
  "getMoodByName name = find (\<lambda>m. m = name) moodCategories"

record moodData =
  md_mood :: string
  md_intensity :: int
  md_notes :: "string option"
  md_date :: string

text \<open>\<^verbatim>\<open>MoodTracker.getMoodsByDate(userId, date)\<close>: its own \<^verbatim>\<open>catch\<close> returns \<^verbatim>\<open>[]\<close>.\<close>

definition getMoodsByDate :: "db \<Rightarrow> nat \<Rightarrow> string \<Rightarrow> mood list" where
  "getMoodsByDate d userId date =
     (case moods_by_userId d userId of
        Rejected \<Rightarrow> []
      | Resolved allMoods \<Rightarrow> filter (\<lambda>m. mood_date m = date) allMoods)"

text \<open>\<^verbatim>\<open>MoodTracker.logMood(userId, moodData)\<close>.\<close>

definition logMood :: "clock \<Rightarrow> db \<Rightarrow> nat \<Rightarrow> moodData \<Rightarrow> response \<times> db" where
  "logMood clk d userId moodData =
     (case getMoodByName (md_mood moodData) of
        None \<Rightarrow> (Failure ''Invalid mood selected'', d)
      | Some validMood \<Rightarrow>
          if md_intensity moodData < 1 \<or> md_intensity moodData > 10
          then (Failure ''Intensity must be between 1 and 10'', d)
          else (case getMoodsByDate d userId (md_date moodData) of
                  existing # others \<Rightarrow>
                    (case update_mood d
                            (existing\<lparr>mood_mood := md_mood moodData,
                                      mood_intensity := md_intensity moodData,
                                      mood_notes := md_notes moodData,
                                      mood_timestamp := nowISO clk\<rparr>) of
                       Rejected \<Rightarrow> (Failure ''Failed to log mood'', d)
                     | Resolved (k, d') \<Rightarrow>
                         (Success (Some (mood_id existing)) ''Mood entry updated'', d'))
                | [] \<Rightarrow>
                    (case add_mood d
                            \<lparr>mood_id = 0,
                             mood_userId = userId,
                             mood_mood = md_mood moodData,
                             mood_intensity = md_intensity moodData,
                             mood_notes = Some (or_string (md_notes moodData) []),
                             mood_date = md_date moodData,
                             mood_timestamp = nowISO clk\<rparr> of
                       Rejected \<Rightarrow> (Failure ''Failed to log mood'', d)
                     | Resolved (moodId, d') \<Rightarrow>
                         (Success (Some moodId) ''Mood logged successfully'', d'))))"

subsection \<open>mood-tracker.js: the streak\<close>

text \<open>\<^verbatim>\<open>[...new Set(xs)]\<close>: the elements in the order of their first occurrence.\<close>

fun set_add_all :: "'a list \<Rightarrow> 'a list \<Rightarrow> 'a list" where
  "set_add_all acc [] = acc"
| "set_add_all acc (x # xs) = set_add_all (if x \<in> set acc then acc else acc @ [x]) xs"

definition new_Set :: "'a list \<Rightarrow> 'a list" where
  "new_Set xs = set_add_all [] xs"

text \<open>
  \<^verbatim>\<open>Math.floor((currentDate - moodDate) / (1000 * 60 * 60 * 24))\<close> with \<^verbatim>\<open>moodDate\<close> the
  parsed date after \<^verbatim>\<open>setHours(0, 0, 0, 0)\<close>; NaN for an invalid date.
\<close>

definition diffDays :: "clock \<Rightarrow> int \<Rightarrow> string \<Rightarrow> int option" where
  "diffDays clk currentDate dateStr =
     (case parse clk dateStr of
        None \<Rightarrow> None
      | Some t \<Rightarrow> Some ((currentDate - startOfDay clk t) div (1000 * 60 * 60 * 24)))"

text \<open>The \<^verbatim>\<open>for (const dateStr of dates)\<close> loop; \<^verbatim>\<open>NaN === streak\<close> is false.\<close>

fun streakLoop :: "clock \<Rightarrow> int \<Rightarrow> string list \<Rightarrow> int \<Rightarrow> int" where
  "streakLoop clk currentDate [] streak = streak"
| "streakLoop clk currentDate (dateStr # rest) streak =
     (if diffDays clk currentDate dateStr = Some streak
      then streakLoop clk currentDate rest (streak + 1)
      else streak)"

text \<open>\<^verbatim>\<open>MoodTracker.calculateStreak(moods)\<close>, with \<open>ms\<close> for \<^verbatim>\<open>moods\<close>.\<close>

definition calculateStreak :: "clock \<Rightarrow> mood list \<Rightarrow> int" where
  "calculateStreak clk ms =
     (if length ms = 0 then 0
      else let dates = js_sort (\<lambda>a b. date_diff (parse clk b) (parse clk a))
                         (new_Set (map mood_date ms));
               currentDate = startOfDay clk (now clk)
           in streakLoop clk currentDate dates 0)"

subsection \<open>utils.js: average and trend\<close>

text \<open>
  JavaScript numbers are IEEE 754 doubles. A finite double is the rational it denotes, and
  \<open>fl x\<close> rounds a rational to the nearest double, ties to even: for \<open>x \<noteq> 0\<close> the exponent
  \<open>e\<close> is chosen so that \<open>\<bar>x\<bar> / 2\<^sup>e\<close> lies in \<open>[2\<^sup>5\<^sup>2, 2\<^sup>5\<^sup>3)\<close>, and that quotient is rounded to
  an integer. The exponent range of the format (overflow to Infinity above \<open>2\<^sup>1\<^sup>0\<^sup>2\<^sup>4\<close>,
  subnormals below \<open>2\<^sup>-\<^sup>1\<^sup>0\<^sup>2\<^sup>2\<close>) is not modelled; averages of mood intensities are far
  inside it.
\<close>

definition pow2 :: "int \<Rightarrow> rat" where
  "pow2 e = (if 0 \<le> e then 2 ^ nat e else 1 / 2 ^ nat (- e))"

text \<open>\<open>\<lfloor>log\<^sub>2 x\<rfloor>\<close> for a positive rational.\<close>

definition ilog2 :: "rat \<Rightarrow> int" where
  "ilog2 x = (if 1 \<le> x then bitlen \<lfloor>x\<rfloor> - 1 else - bitlen (\<lceil>1 / x\<rceil> - 1))"

definition round_even :: "rat \<Rightarrow> int" where
  "round_even m =
     (let f = \<lfloor>m\<rfloor>; r = m - of_int f
      in if r < 1 / 2 then f else if 1 / 2 < r then f + 1 else if even f then f else f + 1)"

definition fl :: "rat \<Rightarrow> rat" where
  "fl x =
     (if x = 0 then 0
      else let e = ilog2 \<bar>x\<bar> - 52
           in sgn x * of_int (round_even (\<bar>x\<bar> / pow2 e)) * pow2 e)"

text \<open>
  \<^verbatim>\<open>x.toFixed(1)\<close>, as the number its digits denote: the integer \<open>n\<close> with \<open>n / 10\<close> nearest
  to \<open>x\<close>, the larger one on a tie (taken on \<open>\<bar>x\<bar>\<close>, the sign put back); from \<open>10\<^sup>2\<^sup>1\<close> on
  the digits are those of \<open>x\<close> itself.
\<close>

definition toFixed1 :: "rat \<Rightarrow> rat" where
  "toFixed1 x =
     (if 10 ^ 21 \<le> \<bar>x\<bar> then x
      else sgn x * of_int \<lfloor>\<bar>x\<bar> * 10 + 1 / 2\<rfloor> / 10)"

text \<open>
  \<^verbatim>\<open>MoodUtils.calculateAverage(moods)\<close>: the number \<open>0\<close>, or the string of \<^verbatim>\<open>toFixed(1)\<close>,
  here the decimal number the string spells. \<^verbatim>\<open>reduce\<close> adds in double arithmetic.
\<close>

definition calculateAverage :: "mood list \<Rightarrow> rat" where
  "calculateAverage ms =
     (if length ms = 0 then 0
      else let sum = foldl (\<lambda>acc m. fl (acc + of_int (mood_intensity m))) 0 ms
           in toFixed1 (fl (sum / of_nat (length ms))))"

text \<open>\<^verbatim>\<open>xs.slice(-7)\<close> and \<^verbatim>\<open>xs.slice(-14, -7)\<close>.\<close>

definition slice_last7 :: "'a list \<Rightarrow> 'a list" where
  "slice_last7 xs = drop (length xs - 7) xs"

definition slice_prev7 :: "'a list \<Rightarrow> 'a list" where
  "slice_prev7 xs = drop (length xs - 14) (take (length xs - 7) xs)"

text \<open>
  \<^verbatim>\<open>MoodUtils.getMoodTrend(moods)\<close>. The subtraction converts both strings back to doubles
  and subtracts in double arithmetic; \<^verbatim>\<open>0.5\<close> is a double.
\<close>

definition getMoodTrend :: "mood list \<Rightarrow> string" where
  "getMoodTrend ms =
     (if length ms < 2 then ''stable''
      else let recent = slice_last7 ms;
               older = slice_prev7 ms
           in if length older = 0 then ''stable''
              else let recentAvg = calculateAverage recent;
                       olderAvg = calculateAverage older;
                       diff = fl (fl recentAvg - fl olderAvg)
                   in if diff > 1 / 2 then ''improving''
                      else if diff < - (1 / 2) then ''declining''
                      else ''stable'')"

subsection \<open>A reference runtime\<close>

text \<open>
  For the concrete runs below: a runtime in the UTC time zone that reads the strings
  \<^verbatim>\<open>YYYY-MM-DD\<close> and \<^verbatim>\<open>YYYY-MM-DD HH:MM\<close> the application stores, and rejects every other
  string. The general theorems hold for every runtime.
\<close>

definition digit :: "char \<Rightarrow> nat option" where
  "digit c = (let n = (of_char c :: nat) in if 48 \<le> n \<and> n \<le> 57 then Some (n - 48) else None)"

fun number_acc :: "nat \<Rightarrow> string \<Rightarrow> nat option" where
  "number_acc acc [] = Some acc"
| "number_acc acc (c # cs) =
     (case digit c of None \<Rightarrow> None | Some v \<Rightarrow> number_acc (10 * acc + v) cs)"

text \<open>Days from 1970-01-01 to a date of the proleptic Gregorian calendar.\<close>

definition daysFromCivil :: "int \<Rightarrow> int \<Rightarrow> int \<Rightarrow> int" where
  "daysFromCivil y m dd =
     (let y' = (if m \<le> 2 then y - 1 else y);
          era = y' div 400;
          yoe = y' - era * 400;
          doy = (153 * (if 2 < m then m - 3 else m + 9) + 2) div 5 + dd - 1;
          doe = yoe * 365 + yoe div 4 - yoe div 100 + doy
      in era * 146097 + doe - 719468)"

definition utc_date :: "string \<Rightarrow> int option" where
  "utc_date s =
     (if length s = 10 \<and> s ! 4 = CHR ''-'' \<and> s ! 7 = CHR ''-'' then
        (case (number_acc 0 (take 4 s), number_acc 0 (take 2 (drop 5 s)),
               number_acc 0 (drop 8 s)) of
           (Some y, Some m, Some dd) \<Rightarrow>
             if 1 \<le> m \<and> m \<le> 12 \<and> 1 \<le> dd \<and> dd \<le> 31
             then Some (daysFromCivil (int y) (int m) (int dd) * 86400000)
             else None
         | _ \<Rightarrow> None)
      else None)"

definition utc_time :: "string \<Rightarrow> int option" where
  "utc_time s =
     (if length s = 5 \<and> s ! 2 = CHR '':'' then
        (case (number_acc 0 (take 2 s), number_acc 0 (drop 3 s)) of
           (Some h, Some mi) \<Rightarrow>
             if h \<le> 23 \<and> mi \<le> 59 then Some ((int h * 60 + int mi) * 60000) else None
         | _ \<Rightarrow> None)
      else None)"

definition utc_parse :: "string \<Rightarrow> int option" where
  "utc_parse s =
     (if length s = 10 then utc_date s
      else if length s = 16 \<and> s ! 10 = CHR '' '' then
        (case (utc_date (take 10 s), utc_time (drop 11 s)) of
           (Some t, Some u) \<Rightarrow> Some (t + u)
         | _ \<Rightarrow> None)
      else None)"

definition utcClock :: "int \<Rightarrow> string \<Rightarrow> clock" where
  "utcClock t stamp =
     \<lparr>parse = utc_parse,
      now = t,
      nowISO = stamp,
      startOfDay = (\<lambda>v. v - v mod 86400000),
      getDay = (\<lambda>s. case utc_parse s of
                       None \<Rightarrow> None
                     | Some v \<Rightarrow> Some (nat ((v div 86400000 + 4) mod 7)))\<rparr>"

subsection \<open>Sample data for the concrete runs\<close>

definition sampleClock :: clock where
  "sampleClock = utcClock 1751328000000 ''2025-07-01T00:00:00.000Z''"

definition mkAppointment :: "nat \<Rightarrow> nat \<Rightarrow> nat \<Rightarrow> string \<Rightarrow> string \<Rightarrow> int \<Rightarrow> string \<Rightarrow> appointment" where
  "mkAppointment i u t dt tm dur st =
     \<lparr>apt_id = i, apt_userId = u, apt_therapistId = t, apt_date = dt, apt_time = tm,
      apt_duration = dur, apt_type = ''Regular Session'', apt_status = st, apt_notes = [],
      apt_createdAt = ''2025-06-01T00:00:00.000Z'', apt_cancelledAt = None\<rparr>"

definition mkMood :: "nat \<Rightarrow> string \<Rightarrow> int \<Rightarrow> mood" where
  "mkMood i dt v =
     \<lparr>mood_id = i, mood_userId = 1, mood_mood = ''Calm'', mood_intensity = v,
      mood_notes = None, mood_date = dt, mood_timestamp = ''2025-06-01T00:00:00.000Z''\<rparr>"

text \<open>
  User 1 is connected to therapist 1, who works Monday to Thursday. Appointment 1 is
  confirmed for 2025-07-01 09:00 (a Tuesday), appointment 2 was cancelled for 10:40 the
  same day, appointment 3 was cancelled and lies in the past, appointment 4 lies in the
  future and is already marked completed. The clock stands at 2025-07-01 00:00 UTC.
\<close>

definition sampleStore :: db where
  "sampleStore =
     \<lparr>opened = True,
      therapists = [\<lparr>th_id = 1, availability = [''Monday'', ''Tuesday'', ''Wednesday'', ''Thursday'']\<rparr>],
      userTherapists = [\<lparr>conn_userId = 1, conn_therapistId = 1, conn_status = ''active''\<rparr>],
      appointments =
        [mkAppointment 1 1 1 ''2025-07-01'' ''09:00'' 50 ''confirmed'',
         mkAppointment 2 1 1 ''2025-07-01'' ''10:40'' 50 ''cancelled'',
         mkAppointment 3 1 1 ''2025-06-02'' ''09:00'' 50 ''cancelled'',
         mkAppointment 4 1 1 ''2025-07-03'' ''14:00'' 50 ''completed''],
      appointments_next = 5,
      moods = [],
      moods_next = 1\<rparr>"

text \<open>The same store after \<^verbatim>\<open>indexedDB.open\<close> has failed.\<close>

definition brokenStore :: db where
  "brokenStore = sampleStore\<lparr>opened := False\<rparr>"

text \<open>
  The object \<^verbatim>\<open>bookAppointment\<close> hands to \<^verbatim>\<open>mindspaceDB.add\<close>, with the key the store assigns
  and the three \<^verbatim>\<open>||\<close> defaults written out.
\<close>

definition newAppointment :: "clock \<Rightarrow> nat \<Rightarrow> nat \<Rightarrow> appointmentData \<Rightarrow> appointment" where
  "newAppointment clk k userId ad =
     \<lparr>apt_id = k, apt_userId = userId, apt_therapistId = ad_therapistId ad,
      apt_date = ad_date ad, apt_time = ad_time ad,
      apt_duration = (case ad_duration ad of None \<Rightarrow> 50 | Some n \<Rightarrow> if n = 0 then 50 else n),
      apt_type = (case ad_type ad of None \<Rightarrow> ''Regular Session''
                  | Some s \<Rightarrow> if s = [] then ''Regular Session'' else s),
      apt_status = ''confirmed'',
      apt_notes = (case ad_notes ad of None \<Rightarrow> [] | Some s \<Rightarrow> s),
      apt_createdAt = nowISO clk, apt_cancelledAt = None\<rparr>"

text \<open>A request for therapist 1 on 2025-07-01 that leaves duration, type and notes out.\<close>

definition sampleRequest :: "string \<Rightarrow> appointmentData" where
  "sampleRequest tm =
     \<lparr>ad_therapistId = 1, ad_date = ''2025-07-01'', ad_time = tm,
      ad_duration = None, ad_type = None, ad_notes = None\<rparr>"

subsection \<open>The mood store as the data model sees it\<close>

text \<open>The stored mood entries of one user for one date.\<close>

definition entriesFor :: "db \<Rightarrow> nat \<Rightarrow> string \<Rightarrow> mood list" where
  "entriesFor d u dt = filter (\<lambda>m. mood_userId m = u \<and> mood_date m = dt) (moods d)"

text \<open>
  What IndexedDB guarantees of the \<^verbatim>\<open>moods\<close> store: records in strictly ascending key order,
  and a key generator ahead of every stored key.
\<close>

definition mood_keys_ok :: "db \<Rightarrow> bool" where
  "mood_keys_ok d \<longleftrightarrow>
     sorted_wrt (<) (map mood_id (moods d)) \<and> (\<forall>m \<in> set (moods d). mood_id m < moods_next d)"

text \<open>The invariant of the data model: at most one entry per user and date.\<close>

definition one_entry_per_day :: "db \<Rightarrow> bool" where
  "one_entry_per_day d \<longleftrightarrow> (\<forall>u dt. length (entriesFor d u dt) \<le> 1)"

text \<open>A mood of the category set with an intensity from 1 to 10.\<close>

definition valid_moodData :: "moodData \<Rightarrow> bool" where
  "valid_moodData md \<longleftrightarrow>
     md_mood md \<in> set moodCategories \<and> 1 \<le> md_intensity md \<and> md_intensity md \<le> 10"

text \<open>The entry \<^verbatim>\<open>logMood\<close> puts back on its update path, and the one it adds otherwise.\<close>

definition overwritten :: "clock \<Rightarrow> moodData \<Rightarrow> mood \<Rightarrow> mood" where
  "overwritten clk md existing =
     existing\<lparr>mood_mood := md_mood md, mood_intensity := md_intensity md,
              mood_notes := md_notes md, mood_timestamp := nowISO clk\<rparr>"

definition inserted :: "clock \<Rightarrow> nat \<Rightarrow> nat \<Rightarrow> moodData \<Rightarrow> mood" where
  "inserted clk k u md =
     \<lparr>mood_id = k, mood_userId = u, mood_mood = md_mood md, mood_intensity = md_intensity md,
      mood_notes = Some (case md_notes md of None \<Rightarrow> [] | Some s \<Rightarrow> s),
      mood_date = md_date md, mood_timestamp = nowISO clk\<rparr>"

text \<open>A mood logged for 2025-07-01.\<close>

definition sampleMood :: "string \<Rightarrow> int \<Rightarrow> string option \<Rightarrow> moodData" where
  "sampleMood name v n = \<lparr>md_mood = name, md_intensity = v, md_notes = n, md_date = ''2025-07-01''\<rparr>"

subsection \<open>A runtime away from UTC\<close>

text \<open>
  The reference runtime moved to a zone whose local time is UTC plus a fixed offset, in
  milliseconds (negative west of Greenwich). A date-only string \<^verbatim>\<open>YYYY-MM-DD\<close> is read as
  midnight UTC (ECMAScript, \<^verbatim>\<open>Date.parse\<close>), a string with a time of day as local time;
  \<^verbatim>\<open>setHours(0, 0, 0, 0)\<close> goes to the local midnight of the instant's local date, and
  \<^verbatim>\<open>getDay\<close> reads the local weekday.
\<close>

definition zone_parse :: "int \<Rightarrow> string \<Rightarrow> int option" where
  "zone_parse offset s =
     (if length s = 10 then utc_date s else map_option (\<lambda>v. v - offset) (utc_parse s))"

definition zoneClock :: "int \<Rightarrow> int \<Rightarrow> string \<Rightarrow> clock" where
  "zoneClock offset t stamp =
     \<lparr>parse = zone_parse offset,
      now = t,
      nowISO = stamp,
      startOfDay = (\<lambda>v. v - (v + offset) mod 86400000),
      getDay = (\<lambda>s. case zone_parse offset s of
                       None \<Rightarrow> None
                     | Some v \<Rightarrow> Some (nat (((v + offset) div 86400000 + 4) mod 7)))\<rparr>"

text \<open>
  Noon of 2025-07-01 in a zone five hours behind UTC all year (such as Bogota or Lima):
  17:00 UTC of the same day.
\<close>

definition westClock :: clock where
  "westClock = zoneClock (- 18000000) 1751389200000 ''2025-07-01T17:00:00.000Z''"

subsection \<open>Calendar days\<close>

text \<open>
  The calendar side of the streak, without \<^verbatim>\<open>Date\<close>: the number of the day a date string
  \<^verbatim>\<open>YYYY-MM-DD\<close> names, counted from 1970-01-01.
\<close>

definition calendarDay :: "string \<Rightarrow> int option" where
  "calendarDay s =
     (if length s = 10 \<and> s ! 4 = CHR ''-'' \<and> s ! 7 = CHR ''-'' then
        (case (number_acc 0 (take 4 s), number_acc 0 (take 2 (drop 5 s)),
               number_acc 0 (drop 8 s)) of
           (Some y, Some m, Some dd) \<Rightarrow>
             if 1 \<le> m \<and> m \<le> 12 \<and> 1 \<le> dd \<and> dd \<le> 31
             then Some (daysFromCivil (int y) (int m) (int dd))
             else None
         | _ \<Rightarrow> None)
      else None)"

text \<open>
  The number of the local calendar day at the instant \<open>t\<close>, for a wall clock that shows UTC
  plus \<open>offset\<close> milliseconds.
\<close>

definition localDay :: "int \<Rightarrow> int \<Rightarrow> int" where
  "localDay offset t = (t + offset) div 86400000"

text \<open>How many calendar days before the local today the date string lies.\<close>

definition daysAgo :: "int \<Rightarrow> int \<Rightarrow> string \<Rightarrow> int option" where
  "daysAgo offset t s = map_option (\<lambda>d. localDay offset t - d) (calendarDay s)"

text \<open>Entries three days ago, yesterday and today (2025-07-01), in store order.\<close>

definition sampleMoods :: "mood list" where
  "sampleMoods = [mkMood 1 ''2025-06-28'' 7, mkMood 2 ''2025-06-30'' 5, mkMood 3 ''2025-07-01'' 6]"

subsection \<open>The trend as the specification reads it\<close>

text \<open>The exact mean intensity of a window of entries.\<close>

definition meanIntensity :: "mood list \<Rightarrow> rat" where
  "meanIntensity ws = of_int (sum_list (map mood_intensity ws)) / of_nat (length ws)"

text \<open>That mean rounded to one decimal place, half up, counted in tenths.\<close>

definition tenths :: "mood list \<Rightarrow> int" where
  "tenths ws = \<lfloor>meanIntensity ws * 10 + 1 / 2\<rfloor>"

text \<open>Entries with the given intensities, in chronological order.\<close>

definition trendSample :: "int list \<Rightarrow> mood list" where
  "trendSample vs = map (mkMood 0 ''2025-07-01'') vs"

section \<open>Properties of the store\<close>

lemma find_put_by:
  "find (\<lambda>a. key a = k) (put_by key x xs) =
     (if k = key x then Some x else find (\<lambda>a. key a = k) xs)"
  by (induction xs) auto

lemma set_put_by_subset: "set (put_by key x xs) \<subseteq> insert x (set xs)"
  by (induction xs) auto

lemma put_by_keeps: "y \<in> set xs \<Longrightarrow> key y \<noteq> key x \<Longrightarrow> y \<in> set (put_by key x xs)"
  by (induction xs) auto

lemma put_by_mem: "x \<in> set (put_by key x xs)"
  by (induction xs) auto

lemma find_key_id: "find (\<lambda>a. key a = k) xs = Some a \<Longrightarrow> key a = k"
  by (induction xs) (auto split: if_splits)

section \<open>Cancelling\<close>

text \<open>
  Claim C8. Cancelling an appointment that the store holds with status \<^verbatim>\<open>cancelled\<close> fails
  with the message "Appointment is already cancelled" and returns the store as it was.
  Cancelling one with any other status succeeds; afterwards the store holds that
  appointment with status \<^verbatim>\<open>cancelled\<close> and \<^verbatim>\<open>cancelledAt\<close> set to the current instant,
  and every other appointment as before.
\<close>

theorem cancelAppointment_guard:
  assumes "get_appointment d k = Resolved (Some a)"
  shows "(apt_status a = ''cancelled'' \<longrightarrow>
            cancelAppointment clk d k = (Failure ''Appointment is already cancelled'', d)) \<and>
         (apt_status a \<noteq> ''cancelled'' \<longrightarrow>
            (\<exists>d'. cancelAppointment clk d k = (Success None ''Appointment cancelled successfully'', d')
                \<and> get_appointment d' k =
                     Resolved (Some (a\<lparr>apt_status := ''cancelled'',
                                        apt_cancelledAt := Some (nowISO clk)\<rparr>))
                \<and> (\<forall>j. j \<noteq> k \<longrightarrow> get_appointment d' j = get_appointment d j)))"
proof -
  from assms have op: "opened d" and fnd: "find (\<lambda>a. apt_id a = k) (appointments d) = Some a"
    by (auto simp: get_appointment_def split: if_splits)
  from fnd have id: "apt_id a = k" by (rule find_key_id)
  show ?thesis
    using op id assms
    by (auto simp: cancelAppointment_def update_appointment_def get_appointment_def find_put_by)
qed

theorem cancelAppointment_guard_witness:
  "cancelAppointment sampleClock sampleStore 2
     = (Failure ''Appointment is already cancelled'', sampleStore) \<and>
   fst (cancelAppointment sampleClock sampleStore 1)
     = Success None ''Appointment cancelled successfully''"
  using cancelAppointment_guard [of sampleStore 2
          "mkAppointment 2 1 1 ''2025-07-01'' ''10:40'' 50 ''cancelled''" sampleClock]
        cancelAppointment_guard [of sampleStore 1
          "mkAppointment 1 1 1 ''2025-07-01'' ''09:00'' 50 ''confirmed''" sampleClock]
  by (auto simp: get_appointment_def sampleStore_def mkAppointment_def)

section \<open>Booking\<close>

lemma isConnected_iff:
  "isConnected d u t \<longleftrightarrow>
     opened d \<and> (\<exists>c \<in> set (userTherapists d).
        conn_userId c = u \<and> conn_therapistId c = t \<and> conn_status c = ''active'')"
  by (auto simp: isConnected_def userTherapists_by_userId_def list_ex_iff)

lemma isSlotAvailable_iff:
  "isSlotAvailable d t dt tm \<longleftrightarrow>
     opened d \<and> \<not> (\<exists>a \<in> set (appointments d).
        apt_therapistId a = t \<and> apt_date a = dt \<and> apt_time a = tm \<and> apt_status a \<noteq> ''cancelled'')"
proof -
  have "isSlotAvailable d t dt tm \<longleftrightarrow>
          opened d \<and> find (\<lambda>apt. apt_date apt = dt \<and> apt_time apt = tm \<and> apt_status apt \<noteq> ''cancelled'')
                       (filter (\<lambda>a. apt_therapistId a = t) (appointments d)) = None"
    by (simp add: isSlotAvailable_def appointments_by_therapistId_def split: option.splits)
  then show ?thesis
    by (auto simp: find_None_iff)
qed

lemma bookAppointment_created:
  assumes "isConnected d u (ad_therapistId ad)"
    and "isSlotAvailable d (ad_therapistId ad) (ad_date ad) (ad_time ad)"
    and "appointments_next d \<notin> apt_id ` set (appointments d)"
  shows "bookAppointment clk d u ad =
           (Success (Some (appointments_next d)) ''Appointment booked successfully'',
            d\<lparr>appointments := put_by apt_id (newAppointment clk (appointments_next d) u ad) (appointments d),
              appointments_next := appointments_next d + 1\<rparr>)"
proof -
  from assms(1) have "opened d" by (simp add: isConnected_iff)
  with assms show ?thesis
    by (simp add: bookAppointment_def add_appointment_def Let_def newAppointment_def
          or_number_def or_string_def split: option.splits)
qed

lemma bookAppointment_success:
  assumes "bookAppointment clk d u ad = (Success i m, d')"
  shows "isConnected d u (ad_therapistId ad) \<and>
         isSlotAvailable d (ad_therapistId ad) (ad_date ad) (ad_time ad) \<and>
         appointments_next d \<notin> apt_id ` set (appointments d)"
  using assms
  by (auto simp: bookAppointment_def add_appointment_def Let_def split: if_splits promise.splits)

text \<open>
  Claim C7. Booking fails with "You must be connected with this therapist first" when the
  store holds no active connection between the user and the therapist. For a connected
  user it fails with "This time slot is no longer available" when some appointment of that
  therapist with the same date and time is not cancelled. Otherwise (every appointment of
  the therapist at that date and time is cancelled, the key generator is ahead of the
  stored keys) it succeeds and the store gains exactly one appointment, with status
  \<^verbatim>\<open>confirmed\<close>, for that user, therapist, date and time.
\<close>

theorem bookAppointment_outcomes:
  "((\<not> (\<exists>c \<in> set (userTherapists d). conn_userId c = u \<and> conn_therapistId c = ad_therapistId ad
          \<and> conn_status c = ''active''))
      \<longrightarrow> bookAppointment clk d u ad
            = (Failure ''You must be connected with this therapist first'', d)) \<and>
   (opened d \<and>
    (\<exists>c \<in> set (userTherapists d). conn_userId c = u \<and> conn_therapistId c = ad_therapistId ad
          \<and> conn_status c = ''active'') \<and>
    (\<exists>a \<in> set (appointments d). apt_therapistId a = ad_therapistId ad \<and> apt_date a = ad_date ad
          \<and> apt_time a = ad_time ad \<and> apt_status a \<noteq> ''cancelled'')
      \<longrightarrow> bookAppointment clk d u ad = (Failure ''This time slot is no longer available'', d)) \<and>
   (opened d \<and>
    (\<exists>c \<in> set (userTherapists d). conn_userId c = u \<and> conn_therapistId c = ad_therapistId ad
          \<and> conn_status c = ''active'') \<and>
    (\<forall>a \<in> set (appointments d). apt_therapistId a = ad_therapistId ad \<and> apt_date a = ad_date ad
          \<and> apt_time a = ad_time ad \<longrightarrow> apt_status a = ''cancelled'') \<and>
    (\<forall>a \<in> set (appointments d). apt_id a < appointments_next d)
      \<longrightarrow> (\<exists>k d' a. bookAppointment clk d u ad
                      = (Success (Some k) ''Appointment booked successfully'', d')
             \<and> get_appointment d' k = Resolved (Some a)
             \<and> apt_status a = ''confirmed'' \<and> apt_userId a = u
             \<and> apt_therapistId a = ad_therapistId ad
             \<and> apt_date a = ad_date ad \<and> apt_time a = ad_time ad
             \<and> set (appointments d') = insert a (set (appointments d))))"
proof (intro conjI impI)
  assume "\<not> (\<exists>c \<in> set (userTherapists d). conn_userId c = u \<and> conn_therapistId c = ad_therapistId ad
          \<and> conn_status c = ''active'')"
  then have "\<not> isConnected d u (ad_therapistId ad)" by (simp add: isConnected_iff)
  then show "bookAppointment clk d u ad
            = (Failure ''You must be connected with this therapist first'', d)"
    by (simp add: bookAppointment_def)
next
  assume a: "opened d \<and>
    (\<exists>c \<in> set (userTherapists d). conn_userId c = u \<and> conn_therapistId c = ad_therapistId ad
          \<and> conn_status c = ''active'') \<and>
    (\<exists>a \<in> set (appointments d). apt_therapistId a = ad_therapistId ad \<and> apt_date a = ad_date ad
          \<and> apt_time a = ad_time ad \<and> apt_status a \<noteq> ''cancelled'')"
  then have con: "isConnected d u (ad_therapistId ad)" by (simp add: isConnected_iff)
  from a have "\<not> isSlotAvailable d (ad_therapistId ad) (ad_date ad) (ad_time ad)"
    by (simp add: isSlotAvailable_iff)
  with con show "bookAppointment clk d u ad = (Failure ''This time slot is no longer available'', d)"
    by (simp add: bookAppointment_def)
next
  assume a: "opened d \<and>
    (\<exists>c \<in> set (userTherapists d). conn_userId c = u \<and> conn_therapistId c = ad_therapistId ad
          \<and> conn_status c = ''active'') \<and>
    (\<forall>a \<in> set (appointments d). apt_therapistId a = ad_therapistId ad \<and> apt_date a = ad_date ad
          \<and> apt_time a = ad_time ad \<longrightarrow> apt_status a = ''cancelled'') \<and>
    (\<forall>a \<in> set (appointments d). apt_id a < appointments_next d)"
  let ?k = "appointments_next d"
  let ?a = "newAppointment clk ?k u ad"
  from a have op: "opened d" by simp
  from a have con: "isConnected d u (ad_therapistId ad)" by (simp add: isConnected_iff)
  from a op have av: "isSlotAvailable d (ad_therapistId ad) (ad_date ad) (ad_time ad)"
    by (auto simp: isSlotAvailable_iff)
  from a have fresh: "?k \<notin> apt_id ` set (appointments d)" by auto
  have fresh': "\<And>y. y \<in> set (appointments d) \<Longrightarrow> apt_id y \<noteq> apt_id ?a"
    using fresh by (force simp: newAppointment_def image_iff)
  have s: "set (put_by apt_id ?a (appointments d)) = insert ?a (set (appointments d))"
    using set_put_by_subset [of apt_id ?a "appointments d"] put_by_mem [of ?a apt_id "appointments d"]
      put_by_keeps [of _ "appointments d" apt_id ?a] fresh'
    by blast
  have g: "find (\<lambda>a. apt_id a = ?k) (put_by apt_id ?a (appointments d)) = Some ?a"
    by (simp add: find_put_by newAppointment_def)
  show "\<exists>k d' a. bookAppointment clk d u ad
                      = (Success (Some k) ''Appointment booked successfully'', d')
             \<and> get_appointment d' k = Resolved (Some a)
             \<and> apt_status a = ''confirmed'' \<and> apt_userId a = u
             \<and> apt_therapistId a = ad_therapistId ad
             \<and> apt_date a = ad_date ad \<and> apt_time a = ad_time ad
             \<and> set (appointments d') = insert a (set (appointments d))"
    apply (rule exI [of _ ?k])
    apply (rule exI [of _ "d\<lparr>appointments := put_by apt_id ?a (appointments d),
              appointments_next := ?k + 1\<rparr>"])
    apply (rule exI [of _ ?a])
    using con av fresh op s g
    apply (simp add: bookAppointment_created get_appointment_def)
    apply (simp add: newAppointment_def)
    done
qed

lemmas sample_defs =
  sampleStore_def sampleRequest_def mkAppointment_def isConnected_def isSlotAvailable_def
  userTherapists_by_userId_def appointments_by_therapistId_def appointments_by_userId_def
  get_appointment_def add_appointment_def update_appointment_def or_number_def or_string_def

theorem bookAppointment_outcomes_witness:
  "bookAppointment sampleClock sampleStore 2 (sampleRequest ''09:00'')
     = (Failure ''You must be connected with this therapist first'', sampleStore) \<and>
   bookAppointment sampleClock sampleStore 1 (sampleRequest ''09:00'')
     = (Failure ''This time slot is no longer available'', sampleStore) \<and>
   fst (bookAppointment sampleClock sampleStore 1 (sampleRequest ''10:40''))
     = Success (Some 5) ''Appointment booked successfully''"
  using bookAppointment_outcomes [of sampleStore 2 "sampleRequest ''09:00''" sampleClock]
        bookAppointment_outcomes [of sampleStore 1 "sampleRequest ''09:00''" sampleClock]
        bookAppointment_outcomes [of sampleStore 1 "sampleRequest ''10:40''" sampleClock]
  by (simp add: sample_defs bookAppointment_def)

text \<open>
  Claim C10. The appointment a successful booking stores has duration 50 when the
  request's duration is absent or 0, type "Regular Session" when the type is absent or
  empty, and empty notes when the notes are absent; otherwise the request's values.
\<close>

theorem bookAppointment_defaults:
  assumes "bookAppointment clk d u ad = (Success (Some k) m, d')"
  shows "\<exists>a. get_appointment d' k = Resolved (Some a)
           \<and> apt_duration a = (case ad_duration ad of None \<Rightarrow> 50
                                | Some n \<Rightarrow> if n = 0 then 50 else n)
           \<and> apt_type a = (case ad_type ad of None \<Rightarrow> ''Regular Session''
                            | Some s \<Rightarrow> if s = [] then ''Regular Session'' else s)
           \<and> apt_notes a = (case ad_notes ad of None \<Rightarrow> [] | Some s \<Rightarrow> s)"
proof -
  note c = bookAppointment_success [OF assms]
  from c have op: "opened d" by (simp add: isConnected_iff)
  from c have "bookAppointment clk d u ad =
           (Success (Some (appointments_next d)) ''Appointment booked successfully'',
            d\<lparr>appointments := put_by apt_id (newAppointment clk (appointments_next d) u ad) (appointments d),
              appointments_next := appointments_next d + 1\<rparr>)"
    by (simp add: bookAppointment_created)
  with assms have k: "k = appointments_next d"
    and d': "d' = d\<lparr>appointments := put_by apt_id (newAppointment clk (appointments_next d) u ad) (appointments d),
              appointments_next := appointments_next d + 1\<rparr>"
    by auto
  have "get_appointment d' k = Resolved (Some (newAppointment clk k u ad))"
    using op by (simp add: k d' get_appointment_def find_put_by newAppointment_def)
  then show ?thesis
    by (simp add: newAppointment_def)
qed

theorem bookAppointment_defaults_witness:
  "\<exists>d' a. bookAppointment sampleClock sampleStore 1 (sampleRequest ''10:40'')
             = (Success (Some 5) ''Appointment booked successfully'', d')
        \<and> get_appointment d' 5 = Resolved (Some a)
        \<and> apt_duration a = 50 \<and> apt_type a = ''Regular Session'' \<and> apt_notes a = []"
proof -
  obtain r d' where b: "bookAppointment sampleClock sampleStore 1 (sampleRequest ''10:40'') = (r, d')"
    by (cases "bookAppointment sampleClock sampleStore 1 (sampleRequest ''10:40'')")
  then have r: "r = Success (Some 5) ''Appointment booked successfully''"
    by (simp add: sample_defs bookAppointment_def split: if_splits)
  from bookAppointment_defaults [OF b [unfolded r]] b r show ?thesis
    by (auto simp: sampleRequest_def)
qed

section \<open>The three appointment queries\<close>

lemma set_insert_cmp: "set (insert_cmp cmp x xs) = insert x (set xs)"
  by (induction xs) auto

lemma set_js_sort: "set (js_sort cmp xs) = set xs"
  by (induction xs) (auto simp: js_sort_def set_insert_cmp)

lemma date_lt_iff: "date_lt a b \<longleftrightarrow> (\<exists>x y. a = Some x \<and> b = Some y \<and> x < y)"
  by (auto simp: date_lt_def split: option.splits)

lemma upcoming_iff:
  "a \<in> set (getUpcomingAppointments clk d u) \<longleftrightarrow>
     opened d \<and> a \<in> set (appointments d) \<and> apt_userId a = u \<and>
     (\<exists>t. aptDateTime clk a = Some t \<and> now clk < t) \<and> apt_status a = ''confirmed''"
  by (auto simp: getUpcomingAppointments_def appointments_by_userId_def set_js_sort
        date_gt_def date_lt_iff)

lemma past_iff:
  "a \<in> set (getPastAppointments clk d u) \<longleftrightarrow>
     opened d \<and> a \<in> set (appointments d) \<and> apt_userId a = u \<and>
     ((\<exists>t. aptDateTime clk a = Some t \<and> t < now clk) \<or> apt_status a = ''completed'')"
  by (auto simp: getPastAppointments_def appointments_by_userId_def set_js_sort date_lt_iff)

lemma cancelled_iff:
  "a \<in> set (getCancelledAppointments clk d u) \<longleftrightarrow>
     opened d \<and> a \<in> set (appointments d) \<and> apt_userId a = u \<and> apt_status a = ''cancelled''"
  by (auto simp: getCancelledAppointments_def appointments_by_userId_def set_js_sort)

text \<open>
  Claim C1, as the code has it. An appointment is in the upcoming list iff it is an
  appointment of the user whose start instant lies strictly after now and whose status is
  \<^verbatim>\<open>confirmed\<close>; in the past list iff its start instant lies before now or its status is
  \<^verbatim>\<open>completed\<close>; in the cancelled list iff its status is \<^verbatim>\<open>cancelled\<close>. The upcoming list
  shares no appointment with the other two; the past and cancelled lists share exactly the
  cancelled appointments whose start lies in the past. A completed appointment, whatever
  its date, is in the past list and in no other.
\<close>

theorem appointment_queries_partition:
  "(a \<in> set (getUpcomingAppointments clk d u) \<longleftrightarrow>
      opened d \<and> a \<in> set (appointments d) \<and> apt_userId a = u \<and>
      (\<exists>t. aptDateTime clk a = Some t \<and> now clk < t) \<and> apt_status a = ''confirmed'') \<and>
   (a \<in> set (getPastAppointments clk d u) \<longleftrightarrow>
      opened d \<and> a \<in> set (appointments d) \<and> apt_userId a = u \<and>
      ((\<exists>t. aptDateTime clk a = Some t \<and> t < now clk) \<or> apt_status a = ''completed'')) \<and>
   (a \<in> set (getCancelledAppointments clk d u) \<longleftrightarrow>
      opened d \<and> a \<in> set (appointments d) \<and> apt_userId a = u \<and> apt_status a = ''cancelled'') \<and>
   \<not> (a \<in> set (getUpcomingAppointments clk d u) \<and> a \<in> set (getPastAppointments clk d u)) \<and>
   \<not> (a \<in> set (getUpcomingAppointments clk d u) \<and> a \<in> set (getCancelledAppointments clk d u)) \<and>
   (a \<in> set (getPastAppointments clk d u) \<and> a \<in> set (getCancelledAppointments clk d u) \<longleftrightarrow>
      opened d \<and> a \<in> set (appointments d) \<and> apt_userId a = u \<and> apt_status a = ''cancelled'' \<and>
      (\<exists>t. aptDateTime clk a = Some t \<and> t < now clk)) \<and>
   (opened d \<and> a \<in> set (appointments d) \<and> apt_userId a = u \<and> apt_status a = ''completed'' \<longrightarrow>
      a \<in> set (getPastAppointments clk d u) \<and> a \<notin> set (getUpcomingAppointments clk d u) \<and>
      a \<notin> set (getCancelledAppointments clk d u))"
  unfolding upcoming_iff past_iff cancelled_iff by auto

theorem appointment_queries_partition_witness:
  "mkAppointment 4 1 1 ''2025-07-03'' ''14:00'' 50 ''completed''
     \<in> set (getPastAppointments sampleClock sampleStore 1) \<and>
   mkAppointment 4 1 1 ''2025-07-03'' ''14:00'' 50 ''completed''
     \<notin> set (getUpcomingAppointments sampleClock sampleStore 1) \<and>
   mkAppointment 4 1 1 ''2025-07-03'' ''14:00'' 50 ''completed''
     \<notin> set (getCancelledAppointments sampleClock sampleStore 1)"
  using appointment_queries_partition
          [of "mkAppointment 4 1 1 ''2025-07-03'' ''14:00'' 50 ''completed''"
              sampleClock sampleStore 1]
  by (simp add: sampleStore_def mkAppointment_def)

text \<open>
  The claim as stated, that no appointment is in two of the lists unless it is a
  future-dated completed one, fails: appointment 3 of the sample store is cancelled, dated
  in the past, and is in both the past list and the cancelled list.
\<close>

theorem past_and_cancelled_counterexample:
  "apt_status (mkAppointment 3 1 1 ''2025-06-02'' ''09:00'' 50 ''cancelled'') \<noteq> ''completed'' \<and>
   mkAppointment 3 1 1 ''2025-06-02'' ''09:00'' 50 ''cancelled''
     \<in> set (getPastAppointments sampleClock sampleStore 1) \<and>
   mkAppointment 3 1 1 ''2025-06-02'' ''09:00'' 50 ''cancelled''
     \<in> set (getCancelledAppointments sampleClock sampleStore 1)"
  by code_simp

section \<open>The interval conflict check\<close>

lemma conflictLoop_iff:
  "conflictLoop clk startTime endTime apts \<longleftrightarrow>
     (\<exists>apt \<in> set apts. apt_status apt \<noteq> ''cancelled'' \<and>
        date_lt startTime (endOf (aptDateTime clk apt) (apt_duration apt)) \<and>
        date_gt endTime (aptDateTime clk apt))"
  by (induction apts) (auto simp: Let_def)

lemma overlap_iff:
  "date_lt S (endOf A n) \<and> date_gt (endOf S m) A \<longleftrightarrow>
     (\<exists>newStart newEnd aptStart aptEnd.
         S = Some newStart \<and> newDate (newStart + m * 60000) = Some newEnd \<and>
         A = Some aptStart \<and> newDate (aptStart + n * 60000) = Some aptEnd \<and>
         newStart < aptEnd \<and> newEnd > aptStart)"
  by (cases S; cases A) (auto simp: date_lt_def date_gt_def endOf_def split: option.splits)

lemma hasConflict_iff:
  assumes "opened d"
  shows "hasConflict clk d u date time duration \<longleftrightarrow>
     (\<exists>apt \<in> set (appointments d). apt_userId apt = u \<and> apt_date apt = date \<and>
        apt_status apt \<noteq> ''cancelled'' \<and>
        (\<exists>newStart newEnd aptStart aptEnd.
           parse clk (date @ '' '' @ time) = Some newStart \<and>
           newDate (newStart + duration * 60000) = Some newEnd \<and>
           aptDateTime clk apt = Some aptStart \<and>
           newDate (aptStart + apt_duration apt * 60000) = Some aptEnd \<and>
           newStart < aptEnd \<and> newEnd > aptStart))"
proof -
  have "hasConflict clk d u date time duration \<longleftrightarrow>
     (\<exists>apt \<in> set (appointments d). apt_userId apt = u \<and> apt_date apt = date \<and>
        apt_status apt \<noteq> ''cancelled'' \<and>
        (date_lt (parse clk (date @ '' '' @ time))
                 (endOf (aptDateTime clk apt) (apt_duration apt)) \<and>
         date_gt (endOf (parse clk (date @ '' '' @ time)) duration) (aptDateTime clk apt)))"
    using assms
    by (simp add: hasConflict_def getAppointmentsByDate_def appointments_by_userId_def
          conflictLoop_iff Let_def) blast
  then show ?thesis
    by (simp only: overlap_iff)
qed

lemma hasConflict_store_failed: "\<not> opened d \<Longrightarrow> \<not> hasConflict clk d u date time duration"
  by (simp add: hasConflict_def getAppointmentsByDate_def appointments_by_userId_def)

lemma hasConflict_touching:
  "hasConflict sampleClock sampleStore 1 ''2025-07-01'' ''09:49'' 50 \<and>
   \<not> hasConflict sampleClock sampleStore 1 ''2025-07-01'' ''09:50'' 50"
  by code_simp

text \<open>
  Claim C3. With a readable store the check reports exactly the half-open overlaps
  (\<open>hasConflict_iff\<close>, \<open>hasConflict_touching\<close>). The fail-safe part is not met: user 1 has
  a confirmed appointment on 2025-07-01 from 09:00 to 09:50, and a second booking at 09:00
  is reported as a conflict on the sample store, but as no conflict once the database has
  failed to open. \<^verbatim>\<open>getAppointmentsByDate\<close> turns the store error into an empty list, so
  the \<^verbatim>\<open>catch\<close> branch of \<^verbatim>\<open>hasConflict\<close>, commented "Return true on error to be safe", is
  never entered.
\<close>

theorem hasConflict_fails_open:
  "hasConflict sampleClock sampleStore 1 ''2025-07-01'' ''09:00'' 50 \<and>
   \<not> hasConflict sampleClock brokenStore 1 ''2025-07-01'' ''09:00'' 50"
  by code_simp

section \<open>The slot generator\<close>

lemma div_le0_less: "0 < (d::int) \<Longrightarrow> (e - c) div d \<le> 0 \<Longrightarrow> e - c < d"
  using pos_imp_zdiv_pos_iff [of d "e - c"] by linarith

lemma div_ge1_fits: "0 < (d::int) \<Longrightarrow> 1 \<le> (e - c) div d \<Longrightarrow> c + d \<le> e"
  using pos_imp_zdiv_pos_iff [of d "e - c"] by linarith

lemma div_step: "0 < (d::int) \<Longrightarrow> (e - (c + d)) div d = (e - c) div d - 1"
proof -
  assume "0 < d"
  have "e - (c + d) = (e - c) + (-1) * d" by simp
  then show ?thesis using \<open>0 < d\<close> by (simp only: div_mult_self1)
qed

lemma slotLoop_returns:
  assumes "0 < d"
  shows "n = nat ((e - c) div d) \<Longrightarrow>
         slotLoop d e c slots = Some (slots @ map (\<lambda>k. slotString (c + int k * d)) [0..<n])"
proof (induction n arbitrary: c slots)
  case 0
  then have "(e - c) div d \<le> 0" by simp
  with assms have "e - c < d" by (rule div_le0_less)
  then show ?case
    by (subst slotLoop.simps) simp
next
  case (Suc n)
  then have pos: "1 \<le> (e - c) div d" by linarith
  with assms have le: "c + d \<le> e" by (rule div_ge1_fits)
  from Suc.prems div_step [OF assms, of e c] have n: "n = nat ((e - (c + d)) div d)" by simp
  have shift: "map (\<lambda>k. slotString (c + int k * d)) [0..<Suc n]
      = slotString c # map (\<lambda>k. slotString (c + d + int k * d)) [0..<n]"
    by (simp only: upt_conv_Cons [of 0 "Suc n"] map_Suc_upt [symmetric])
       (simp add: algebra_simps del: upt_Suc)
  have "slotLoop d e c slots = slotLoop d e (c + d) (slots @ [slotString c])"
    using le by (subst slotLoop.simps) simp
  also have "\<dots> = Some ((slots @ [slotString c]) @ map (\<lambda>k. slotString (c + d + int k * d)) [0..<n])"
    by (rule Suc.IH [OF n])
  finally show ?case
    by (simp only: shift) simp
qed

lemma slotLoop_diverges:
  assumes d: "d \<le> 0" and c: "c + d \<le> e"
  shows "slotLoop d e c slots = None"
proof (rule ccontr)
  assume "slotLoop d e c slots \<noteq> None"
  then obtain r where r: "slotLoop d e c slots = Some r" by auto
  have "\<not> (d \<le> 0 \<and> c + d \<le> e)"
  proof (rule slotLoop.raw_induct [where P = "\<lambda>d e c s r. \<not> (d \<le> 0 \<and> c + d \<le> e)", OF _ r],
         goal_cases)
    case (1 f d' e' c' s' y)
    show ?case
    proof
      assume a: "d' \<le> 0 \<and> c' + d' \<le> e'"
      with 1(2) have "f d' e' (c' + d') (s' @ [slotString c']) = Some y" by simp
      from 1(1) [OF this] a show False by linarith
    qed
  qed
  with d c show False by blast
qed

lemma less_div_iff_fits:
  assumes "0 < (d::int)"
  shows "a < x div d \<longleftrightarrow> (a + 1) * d \<le> x"
proof -
  have "(x + (- (a + 1)) * d) div d = x div d + (- (a + 1))"
    using assms by (simp only: div_mult_self1) 
  moreover have "0 \<le> (x + (- (a + 1)) * d) div d \<longleftrightarrow> 0 \<le> x + (- (a + 1)) * d"
    using assms by (rule pos_imp_zdiv_nonneg_iff)
  ultimately show ?thesis by (simp add: algebra_simps) linarith
qed

lemma slotString_hour: "slotString (s * 60) = padStart2 (toString s) @ '':00''"
  by (simp add: slotString_def js_rem_def padStart2_def toString_def)

text \<open>
  Claim C5, for a positive duration. The generator returns; its slots are those of the
  minutes \<open>startHour * 60 + k * duration\<close> for exactly the \<open>k\<close> whose slot ends at or before
  \<open>endHour * 60\<close>, in order, the first one reading \<open>startHour:00\<close>. For a duration that
  divides the 480 minutes from 9 to 17 these are \<open>(17 - 9) * 60 / duration\<close> slots, and for
  a duration above 480 there is none.
\<close>

theorem generateTimeSlots_positive:
  assumes "0 < d"
  shows "generateTimeSlots s e d =
           Some (map (\<lambda>k. slotString (s * 60 + int k * d)) [0..<nat ((e * 60 - s * 60) div d)]) \<and>
         (\<forall>k. k < nat ((e * 60 - s * 60) div d) \<longleftrightarrow> s * 60 + int k * d + d \<le> e * 60) \<and>
         slotString (s * 60) = padStart2 (toString s) @ '':00'' \<and>
         (d dvd (17 - 9) * 60 \<longrightarrow>
            (\<exists>slots. generateTimeSlots 9 17 d = Some slots \<and> int (length slots) = (17 - 9) * 60 div d)) \<and>
         ((17 - 9) * 60 < d \<longrightarrow> generateTimeSlots 9 17 d = Some [])"
proof -
  have gen: "generateTimeSlots s e d =
           Some (map (\<lambda>k. slotString (s * 60 + int k * d)) [0..<nat ((e * 60 - s * 60) div d)])" for s e
    using slotLoop_returns [OF assms refl, of "e * 60" "s * 60" "[]"]
    by (simp add: generateTimeSlots_def)
  have fits: "k < nat ((e * 60 - s * 60) div d) \<longleftrightarrow> s * 60 + int k * d + d \<le> e * 60" for k
  proof -
    have "int k < (e * 60 - s * 60) div d \<longleftrightarrow> (int k + 1) * d \<le> e * 60 - s * 60"
      using assms by (rule less_div_iff_fits)
    then show ?thesis by (auto simp: algebra_simps)
  qed
  have len: "d dvd (17 - 9) * 60 \<longrightarrow>
            (\<exists>slots. generateTimeSlots 9 17 d = Some slots \<and> int (length slots) = (17 - 9) * 60 div d)"
    using assms by (simp add: gen pos_imp_zdiv_nonneg_iff)
  have none: "(17 - 9) * 60 < d \<longrightarrow> generateTimeSlots 9 17 d = Some []"
    by (simp add: gen div_pos_pos_trivial)
  from gen fits len none slotString_hour show ?thesis by blast
qed

theorem generateTimeSlots_positive_witness:
  "(\<exists>slots. generateTimeSlots 9 17 60 = Some slots \<and> int (length slots) = 8) \<and>
   generateTimeSlots 9 17 500 = Some []"
  using generateTimeSlots_positive [of 60 9 17] generateTimeSlots_positive [of 500 9 17]
  by simp

text \<open>
  For every duration the claim does not hold: with duration 0 the loop condition never
  becomes false and the generator does not return.
\<close>

theorem generateTimeSlots_zero_counterexample: "generateTimeSlots 9 17 0 = None"
  by (simp add: generateTimeSlots_def slotLoop_diverges)

section \<open>The availability resolver\<close>

lemma get_therapist_opened: "get_therapist d tid = Resolved r \<Longrightarrow> opened d"
  by (simp add: get_therapist_def split: if_splits)

text \<open>Without the therapist (not stored, or the store rejects) the result is the empty list.\<close>

lemma getAvailableSlots_no_therapist:
  "get_therapist d tid = Rejected \<or> get_therapist d tid = Resolved None \<Longrightarrow>
   getAvailableSlots clk d tid date dur = Some []"
  by (auto simp: getAvailableSlots_def Let_def)

text \<open>The resolver for a therapist the store holds, in one equation.\<close>

lemma getAvailableSlots_found:
  assumes "get_therapist d tid = Resolved (Some th)"
  shows "getAvailableSlots clk d tid date dur =
      (if \<not> (\<exists>w. getDayOfWeek clk date = Some w \<and> w \<in> set (availability th)) then Some []
       else map_option
                (filter (\<lambda>slot. \<not> (\<exists>apt \<in> set (appointments d). apt_therapistId apt = tid \<and>
                            apt_date apt = date \<and> apt_status apt \<noteq> ''cancelled'' \<and>
                            apt_time apt = slot)))
                (generateTimeSlots 9 17 (case dur of None \<Rightarrow> 50 | Some n \<Rightarrow> n)))"
proof -
  from assms have op: "opened d" by (rule get_therapist_opened)
  have inc: "array_includes (availability th) (getDayOfWeek clk date) \<longleftrightarrow>
        (\<exists>w. getDayOfWeek clk date = Some w \<and> w \<in> set (availability th))"
    by (auto simp: array_includes_def split: option.splits)
  have bt: "appointments_by_therapistId d tid
              = Resolved (filter (\<lambda>a. apt_therapistId a = tid) (appointments d))"
    using op by (simp add: appointments_by_therapistId_def)
  have booked: "(\<lambda>slot. slot \<notin> set (map apt_time
                   (filter (\<lambda>apt. apt_date apt = date \<and> apt_status apt \<noteq> ''cancelled'')
                   (filter (\<lambda>a. apt_therapistId a = tid) (appointments d)))))
       = (\<lambda>slot. \<not> (\<exists>apt \<in> set (appointments d). apt_therapistId apt = tid \<and>
                            apt_date apt = date \<and> apt_status apt \<noteq> ''cancelled'' \<and>
                            apt_time apt = slot))"
    by (rule ext) auto
  show ?thesis
    unfolding getAvailableSlots_def Let_def assms bt promise.case option.case booked inc
    by (cases "generateTimeSlots 9 17 (case dur of None \<Rightarrow> 50 | Some n \<Rightarrow> n)") auto
qed


text \<open>
  On a working day a duration of 0 or less sends \<^verbatim>\<open>generateTimeSlots\<close> into a loop that
  never ends, and the resolver with it.
\<close>

lemma getAvailableSlots_diverges:
  assumes "get_therapist d tid = Resolved (Some th)"
    and "getDayOfWeek clk date = Some w" and "w \<in> set (availability th)"
    and "(case dur of None \<Rightarrow> 50 | Some n \<Rightarrow> n) \<le> 0"
  shows "getAvailableSlots clk d tid date dur = None"
proof -
  from assms(4) have "generateTimeSlots 9 17 (case dur of None \<Rightarrow> 50 | Some n \<Rightarrow> n) = None"
    by (simp add: generateTimeSlots_def slotLoop_diverges)
  with assms(2,3) show ?thesis
    by (simp add: getAvailableSlots_found [OF assms(1)])
qed




section \<open>Logging a mood\<close>

lemma put_by_replace:
  "sorted_wrt (<) (map key xs) \<Longrightarrow> key x \<in> key ` set xs \<Longrightarrow>
   put_by key x xs = map (\<lambda>y. if key y = key x then x else y) xs"
proof (induction xs)
  case Nil
  then show ?case by simp
next
  case (Cons y ys)
  from Cons.prems have gt: "\<forall>z \<in> set ys. key y < key z" and s: "sorted_wrt (<) (map key ys)"
    by auto
  show ?case
  proof (cases "key y = key x")
    case True
    with gt have "\<forall>z \<in> set ys. key z \<noteq> key x" by auto
    then have "map (\<lambda>y. if key y = key x then x else y) ys = ys"
      by (induction ys) auto
    with True show ?thesis by simp
  next
    case False
    with Cons.prems have in_ys: "key x \<in> key ` set ys" by auto
    with gt have "key y < key x" by auto
    with False Cons.IH [OF s in_ys] show ?thesis by simp
  qed
qed

lemma put_by_append: "\<forall>y \<in> set xs. key y < key x \<Longrightarrow> put_by key x xs = xs @ [x]"
  by (induction xs) auto

lemma getMoodByName_iff: "getMoodByName name = None \<longleftrightarrow> name \<notin> set moodCategories"
  by (auto simp: getMoodByName_def find_None_iff)

lemma getMoodsByDate_entries: "opened d \<Longrightarrow> getMoodsByDate d u dt = entriesFor d u dt"
  by (simp add: getMoodsByDate_def moods_by_userId_def entriesFor_def conj_commute)

lemma logMood_invalid:
  "md_mood md \<notin> set moodCategories \<Longrightarrow> logMood clk d u md = (Failure ''Invalid mood selected'', d)"
  "md_mood md \<in> set moodCategories \<Longrightarrow> md_intensity md < 1 \<or> 10 < md_intensity md \<Longrightarrow>
     logMood clk d u md = (Failure ''Intensity must be between 1 and 10'', d)"
  using getMoodByName_iff [of "md_mood md"]
  by (auto simp: logMood_def split: option.splits)

lemma logMood_update:
  assumes "opened d" "valid_moodData md" "mood_keys_ok d"
    and "entriesFor d u (md_date md) = existing # others"
  shows "logMood clk d u md =
           (Success (Some (mood_id existing)) ''Mood entry updated'',
            d\<lparr>moods := map (\<lambda>y. if mood_id y = mood_id existing then overwritten clk md existing else y)
                          (moods d)\<rparr>)"
proof -
  from assms(4) have mem: "existing \<in> set (moods d)"
    by (metis entriesFor_def filter_is_subset list.set_intros(1) subsetD)
  with assms(3) have lt: "mood_id existing < moods_next d" by (simp add: mood_keys_ok_def)
  have "put_by mood_id (overwritten clk md existing) (moods d)
       = map (\<lambda>y. if mood_id y = mood_id (overwritten clk md existing)
                   then overwritten clk md existing else y) (moods d)"
    using assms(3) mem by (intro put_by_replace) (auto simp: mood_keys_ok_def overwritten_def)
  then have put: "put_by mood_id (overwritten clk md existing) (moods d)
       = map (\<lambda>y. if mood_id y = mood_id existing then overwritten clk md existing else y) (moods d)"
    by (simp add: overwritten_def)
  have nx: "max (moods_next d) (mood_id existing + 1) = moods_next d"
    using lt by simp
  obtain v where v: "getMoodByName (md_mood md) = Some v"
    using assms(2) getMoodByName_iff [of "md_mood md"] by (auto simp: valid_moodData_def)
  have "logMood clk d u md =
      (Success (Some (mood_id existing)) ''Mood entry updated'',
       d\<lparr>moods := put_by mood_id (overwritten clk md existing) (moods d),
         moods_next := max (moods_next d) (mood_id (overwritten clk md existing) + 1)\<rparr>)"
    using assms(1,2,4) v
    by (simp add: logMood_def getMoodsByDate_entries update_mood_def valid_moodData_def
          overwritten_def)
  then show ?thesis
    using put nx by (simp add: overwritten_def)
qed

lemma logMood_insert:
  assumes "opened d" "valid_moodData md" "mood_keys_ok d"
    and "entriesFor d u (md_date md) = []"
  shows "logMood clk d u md =
           (Success (Some (moods_next d)) ''Mood logged successfully'',
            d\<lparr>moods := moods d @ [inserted clk (moods_next d) u md],
              moods_next := moods_next d + 1\<rparr>)"
proof -
  have fresh: "moods_next d \<notin> mood_id ` set (moods d)"
    using assms(3) by (auto simp: mood_keys_ok_def)
  have put: "put_by mood_id (inserted clk (moods_next d) u md) (moods d)
        = moods d @ [inserted clk (moods_next d) u md]"
    using assms(3) by (intro put_by_append) (simp add: mood_keys_ok_def inserted_def)
  obtain v where v: "getMoodByName (md_mood md) = Some v"
    using assms(2) getMoodByName_iff [of "md_mood md"] by (auto simp: valid_moodData_def)
  have "logMood clk d u md =
           (Success (Some (moods_next d)) ''Mood logged successfully'',
            d\<lparr>moods := put_by mood_id (inserted clk (moods_next d) u md) (moods d),
              moods_next := moods_next d + 1\<rparr>)"
    using assms(1,2,4) v fresh
    by (simp add: logMood_def getMoodsByDate_entries add_mood_def valid_moodData_def
          inserted_def or_string_def Let_def split: option.splits)
  then show ?thesis by (simp only: put)
qed

lemma sorted_keys_inj:
  "sorted_wrt (<) (map key xs) \<Longrightarrow> x \<in> set xs \<Longrightarrow> y \<in> set xs \<Longrightarrow>
   (key x :: nat) = key y \<Longrightarrow> x = y"
  by (induction xs) auto

lemma entriesFor_mem:
  "m \<in> set (entriesFor d u dt) \<longleftrightarrow> m \<in> set (moods d) \<and> mood_userId m = u \<and> mood_date m = dt"
  by (auto simp: entriesFor_def)

lemma logMood_valid:
  assumes op: "opened d" and v: "valid_moodData md" and k: "mood_keys_ok d"
    and one: "one_entry_per_day d"
  shows "\<exists>k msg d' m. logMood clk d u md = (Success (Some k) msg, d') \<and>
         opened d' \<and> mood_keys_ok d' \<and> one_entry_per_day d' \<and>
         entriesFor d' u (md_date md) = [m] \<and> mood_id m = k \<and>
         mood_mood m = md_mood md \<and> mood_intensity m = md_intensity md \<and>
         mood_timestamp m = nowISO clk \<and>
         (\<forall>e. entriesFor d u (md_date md) = [e] \<longrightarrow>
              m = e\<lparr>mood_mood := md_mood md, mood_intensity := md_intensity md,
                     mood_notes := md_notes md, mood_timestamp := nowISO clk\<rparr> \<and>
              length (moods d') = length (moods d)) \<and>
         (entriesFor d u (md_date md) = [] \<longrightarrow>
              mood_notes m = Some (case md_notes md of None \<Rightarrow> [] | Some s \<Rightarrow> s) \<and>
              length (moods d') = length (moods d) + 1) \<and>
         (\<forall>u' dt'. (u', dt') \<noteq> (u, md_date md) \<longrightarrow> entriesFor d' u' dt' = entriesFor d u' dt')"
proof (cases "entriesFor d u (md_date md)")
  case Nil
  let ?m = "inserted clk (moods_next d) u md"
  let ?d' = "d\<lparr>moods := moods d @ [?m], moods_next := moods_next d + 1\<rparr>"
  have run: "logMood clk d u md = (Success (Some (moods_next d)) ''Mood logged successfully'', ?d')"
    using op v k Nil by (rule logMood_insert)
  have ent: "entriesFor ?d' u' dt' =
        entriesFor d u' dt' @ (if u' = u \<and> dt' = md_date md then [?m] else [])" for u' dt'
    by (simp add: entriesFor_def inserted_def)
  have keys: "mood_keys_ok ?d'"
    using k by (auto simp: mood_keys_ok_def sorted_wrt_append inserted_def less_Suc_eq)
  have one': "one_entry_per_day ?d'"
    unfolding one_entry_per_day_def
  proof (intro allI)
    fix u' dt'
    show "length (entriesFor ?d' u' dt') \<le> 1"
      using one Nil ent [of u' dt']
      by (cases "u' = u \<and> dt' = md_date md") (auto simp: one_entry_per_day_def)
  qed
  have here: "entriesFor ?d' u (md_date md) = [?m]"
    using Nil ent [of u "md_date md"] by simp
  have other: "\<forall>u' dt'. (u', dt') \<noteq> (u, md_date md) \<longrightarrow> entriesFor ?d' u' dt' = entriesFor d u' dt'"
    using ent by auto
  show ?thesis
    apply (rule exI [of _ "moods_next d"], rule exI [of _ "''Mood logged successfully''"])
    apply (rule exI [of _ ?d'], rule exI [of _ ?m])
    using run keys one' here other op Nil
    apply (simp add: inserted_def)
    done
next
  case (Cons e others)
  from one have "length (entriesFor d u (md_date md)) \<le> 1" by (simp add: one_entry_per_day_def)
  with Cons have single: "entriesFor d u (md_date md) = [e]" by simp
  let ?m = "overwritten clk md e"
  let ?f = "\<lambda>y. if mood_id y = mood_id e then ?m else y"
  let ?d' = "d\<lparr>moods := map ?f (moods d)\<rparr>"
  have run: "logMood clk d u md = (Success (Some (mood_id e)) ''Mood entry updated'', ?d')"
    using op v k Cons by (rule logMood_update)
  from single have e_mem: "e \<in> set (moods d)" and e_u: "mood_userId e = u"
    and e_dt: "mood_date e = md_date md"
    using entriesFor_mem [of e d u "md_date md"] by simp_all
  have srt: "sorted_wrt (<) (map mood_id (moods d))" using k by (simp add: mood_keys_ok_def)
  have f_e: "?f y = (if y = e then ?m else y)" if "y \<in> set (moods d)" for y
    using sorted_keys_inj [OF srt that e_mem] by auto
  have f_id: "mood_id (?f y) = mood_id y" for y by (simp add: overwritten_def)
  have f_key: "mood_userId (?f y) = mood_userId y \<and> mood_date (?f y) = mood_date y"
    if "y \<in> set (moods d)" for y
    using f_e [OF that] by (simp add: overwritten_def)
  have ent: "entriesFor ?d' u' dt' = map ?f (entriesFor d u' dt')" for u' dt'
  proof -
    have "filter (\<lambda>m. mood_userId m = u' \<and> mood_date m = dt') (map ?f (moods d))
        = map ?f (filter ((\<lambda>m. mood_userId m = u' \<and> mood_date m = dt') \<circ> ?f) (moods d))"
      by (rule filter_map)
    also have "filter ((\<lambda>m. mood_userId m = u' \<and> mood_date m = dt') \<circ> ?f) (moods d)
        = filter (\<lambda>m. mood_userId m = u' \<and> mood_date m = dt') (moods d)"
      by (rule filter_cong [OF refl]) (use f_key in \<open>simp add: comp_def\<close>)
    finally show ?thesis by (simp add: entriesFor_def)
  qed
  have keys: "mood_keys_ok ?d'"
  proof -
    have "map mood_id (map ?f (moods d)) = map (\<lambda>y. mood_id (?f y)) (moods d)"
      by (simp add: comp_def)
    also have "\<dots> = map mood_id (moods d)"
      by (simp only: f_id)
    finally have ids: "map mood_id (map ?f (moods d)) = map mood_id (moods d)" .
    have "\<forall>m \<in> set (map ?f (moods d)). mood_id m < moods_next d"
      using k e_mem by (auto simp: mood_keys_ok_def overwritten_def)
    then show ?thesis
      using k ids unfolding mood_keys_ok_def by (simp del: map_map)
  qed
  have one': "one_entry_per_day ?d'"
    using one by (simp add: one_entry_per_day_def ent)
  have here: "entriesFor ?d' u (md_date md) = [?m]"
    by (simp add: ent single)
  have other: "entriesFor ?d' u' dt' = entriesFor d u' dt'" if "(u', dt') \<noteq> (u, md_date md)" for u' dt'
  proof -
    have "map ?f (entriesFor d u' dt') = map (\<lambda>y. y) (entriesFor d u' dt')"
    proof (rule map_cong [OF refl])
      fix y assume y: "y \<in> set (entriesFor d u' dt')"
      then have ym: "y \<in> set (moods d)" and "mood_userId y = u'" "mood_date y = dt'"
        by (simp_all add: entriesFor_mem)
      with that e_u e_dt have "y \<noteq> e" by auto
      with f_e [OF ym] show "?f y = y" by simp
    qed
    then show ?thesis by (simp add: ent)
  qed
  show ?thesis
    apply (rule exI [of _ "mood_id e"], rule exI [of _ "''Mood entry updated''"])
    apply (rule exI [of _ ?d'], rule exI [of _ ?m])
    using run keys one' here other op single
    apply (simp add: overwritten_def)
    done
qed

text \<open>
  Claim C6. A mood outside the category set, or an intensity outside 1 to 10, makes
  \<^verbatim>\<open>logMood\<close> fail with its message and return the store as it was. On a readable store
  with at most one entry per user and date, a valid call succeeds and leaves exactly one
  entry for that user and date, carrying the call's mood, intensity, notes and timestamp:
  an existing entry is overwritten in place (the store keeps its size), otherwise one is
  added; the entries of every other user or date are untouched and the invariant is kept.
  Hence two valid calls for the same user and date leave exactly one entry there, with the
  second call's values.
\<close>

theorem logMood_upsert:
  "(md_mood md \<notin> set moodCategories \<longrightarrow>
      logMood clk d u md = (Failure ''Invalid mood selected'', d)) \<and>
   (md_mood md \<in> set moodCategories \<and> (md_intensity md < 1 \<or> 10 < md_intensity md) \<longrightarrow>
      logMood clk d u md = (Failure ''Intensity must be between 1 and 10'', d)) \<and>
   (opened d \<and> valid_moodData md \<and> mood_keys_ok d \<and> one_entry_per_day d \<longrightarrow>
      (\<exists>k msg d' m. logMood clk d u md = (Success (Some k) msg, d') \<and>
         opened d' \<and> mood_keys_ok d' \<and> one_entry_per_day d' \<and>
         entriesFor d' u (md_date md) = [m] \<and> mood_id m = k \<and>
         mood_mood m = md_mood md \<and> mood_intensity m = md_intensity md \<and>
         mood_timestamp m = nowISO clk \<and>
         (\<forall>e. entriesFor d u (md_date md) = [e] \<longrightarrow>
              m = e\<lparr>mood_mood := md_mood md, mood_intensity := md_intensity md,
                     mood_notes := md_notes md, mood_timestamp := nowISO clk\<rparr> \<and>
              length (moods d') = length (moods d)) \<and>
         (entriesFor d u (md_date md) = [] \<longrightarrow>
              mood_notes m = Some (case md_notes md of None \<Rightarrow> [] | Some s \<Rightarrow> s) \<and>
              length (moods d') = length (moods d) + 1) \<and>
         (\<forall>u' dt'. (u', dt') \<noteq> (u, md_date md) \<longrightarrow> entriesFor d' u' dt' = entriesFor d u' dt'))) \<and>
   (opened d \<and> valid_moodData md \<and> valid_moodData md2 \<and> md_date md2 = md_date md \<and>
    mood_keys_ok d \<and> one_entry_per_day d \<longrightarrow>
      (\<exists>m. entriesFor (snd (logMood clk2 (snd (logMood clk d u md)) u md2)) u (md_date md) = [m] \<and>
           mood_mood m = md_mood md2 \<and> mood_intensity m = md_intensity md2 \<and>
           mood_notes m = md_notes md2 \<and> mood_timestamp m = nowISO clk2))"
proof (intro conjI impI)
  assume "md_mood md \<notin> set moodCategories"
  then show "logMood clk d u md = (Failure ''Invalid mood selected'', d)"
    by (rule logMood_invalid)
next
  assume "md_mood md \<in> set moodCategories \<and> (md_intensity md < 1 \<or> 10 < md_intensity md)"
  then show "logMood clk d u md = (Failure ''Intensity must be between 1 and 10'', d)"
    by (simp add: logMood_invalid)
next
  assume "opened d \<and> valid_moodData md \<and> mood_keys_ok d \<and> one_entry_per_day d"
  then show "\<exists>k msg d' m. logMood clk d u md = (Success (Some k) msg, d') \<and>
         opened d' \<and> mood_keys_ok d' \<and> one_entry_per_day d' \<and>
         entriesFor d' u (md_date md) = [m] \<and> mood_id m = k \<and>
         mood_mood m = md_mood md \<and> mood_intensity m = md_intensity md \<and>
         mood_timestamp m = nowISO clk \<and>
         (\<forall>e. entriesFor d u (md_date md) = [e] \<longrightarrow>
              m = e\<lparr>mood_mood := md_mood md, mood_intensity := md_intensity md,
                     mood_notes := md_notes md, mood_timestamp := nowISO clk\<rparr> \<and>
              length (moods d') = length (moods d)) \<and>
         (entriesFor d u (md_date md) = [] \<longrightarrow>
              mood_notes m = Some (case md_notes md of None \<Rightarrow> [] | Some s \<Rightarrow> s) \<and>
              length (moods d') = length (moods d) + 1) \<and>
         (\<forall>u' dt'. (u', dt') \<noteq> (u, md_date md) \<longrightarrow> entriesFor d' u' dt' = entriesFor d u' dt')"
    by (intro logMood_valid) simp_all
next
  assume a: "opened d \<and> valid_moodData md \<and> valid_moodData md2 \<and> md_date md2 = md_date md \<and>
    mood_keys_ok d \<and> one_entry_per_day d"
  from a logMood_valid [of d md clk u]
  obtain k1 msg1 d1 m1 where first: "logMood clk d u md = (Success (Some k1) msg1, d1)"
    and d1: "opened d1" "mood_keys_ok d1" "one_entry_per_day d1"
    and e1: "entriesFor d1 u (md_date md) = [m1]"
    by blast
  from a d1 logMood_valid [of d1 md2 clk2 u]
  obtain k2 msg2 d2 m2 where second: "logMood clk2 d1 u md2 = (Success (Some k2) msg2, d2)"
    and e2: "entriesFor d2 u (md_date md2) = [m2]"
    and vals: "mood_mood m2 = md_mood md2" "mood_intensity m2 = md_intensity md2"
      "mood_timestamp m2 = nowISO clk2"
    and upd: "\<forall>e. entriesFor d1 u (md_date md2) = [e] \<longrightarrow>
              m2 = e\<lparr>mood_mood := md_mood md2, mood_intensity := md_intensity md2,
                     mood_notes := md_notes md2, mood_timestamp := nowISO clk2\<rparr> \<and>
              length (moods d2) = length (moods d1)"
    by blast
  from a e1 upd have "mood_notes m2 = md_notes md2" by simp
  with first second e2 vals a
  show "\<exists>m. entriesFor (snd (logMood clk2 (snd (logMood clk d u md)) u md2)) u (md_date md) = [m] \<and>
           mood_mood m = md_mood md2 \<and> mood_intensity m = md_intensity md2 \<and>
           mood_notes m = md_notes md2 \<and> mood_timestamp m = nowISO clk2"
    by simp
qed

lemma sampleStore_moods_ok:
  "opened sampleStore \<and> mood_keys_ok sampleStore \<and> one_entry_per_day sampleStore"
  by (simp add: sampleStore_def mood_keys_ok_def one_entry_per_day_def entriesFor_def)

lemma sampleMood_valid: "valid_moodData (sampleMood ''Happy'' 7 None)"
  "valid_moodData (sampleMood ''Sad'' 3 (Some ''rough day''))"
  by (simp_all add: valid_moodData_def sampleMood_def moodCategories_def)

theorem logMood_upsert_witness:
  "(\<exists>m. entriesFor
          (snd (logMood (utcClock 1751400000000 ''2025-07-01T20:00:00.000Z'')
                 (snd (logMood sampleClock sampleStore 1 (sampleMood ''Happy'' 7 None)))
                 1 (sampleMood ''Sad'' 3 (Some ''rough day'')))) 1 ''2025-07-01'' = [m]
        \<and> mood_mood m = ''Sad'' \<and> mood_intensity m = 3) \<and>
   moods (snd (logMood (utcClock 1751400000000 ''2025-07-01T20:00:00.000Z'')
                 (snd (logMood sampleClock sampleStore 1 (sampleMood ''Happy'' 7 None)))
                 1 (sampleMood ''Sad'' 3 (Some ''rough day''))))
     = [\<lparr>mood_id = 1, mood_userId = 1, mood_mood = ''Sad'', mood_intensity = 3,
         mood_notes = Some ''rough day'', mood_date = ''2025-07-01'',
         mood_timestamp = ''2025-07-01T20:00:00.000Z''\<rparr>] \<and>
   logMood sampleClock sampleStore 1 (sampleMood ''Joyful'' 7 None)
     = (Failure ''Invalid mood selected'', sampleStore) \<and>
   logMood sampleClock sampleStore 1 (sampleMood ''Happy'' 11 None)
     = (Failure ''Intensity must be between 1 and 10'', sampleStore)"
proof -
  let ?c2 = "utcClock 1751400000000 ''2025-07-01T20:00:00.000Z''"
  let ?d2 = "snd (logMood ?c2 (snd (logMood sampleClock sampleStore 1 (sampleMood ''Happy'' 7 None)))
                 1 (sampleMood ''Sad'' 3 (Some ''rough day'')))"
  note spec = logMood_upsert [of _ sampleClock sampleStore 1]
  have run: "moods ?d2
     = [\<lparr>mood_id = 1, mood_userId = 1, mood_mood = ''Sad'', mood_intensity = 3,
         mood_notes = Some ''rough day'', mood_date = ''2025-07-01'',
         mood_timestamp = ''2025-07-01T20:00:00.000Z''\<rparr>]"
    by code_simp
  from spec [of "sampleMood ''Happy'' 7 None" "sampleMood ''Sad'' 3 (Some ''rough day'')" ?c2]
    sampleStore_moods_ok sampleMood_valid
  have "\<exists>m. entriesFor ?d2 1 ''2025-07-01'' = [m] \<and> mood_mood m = ''Sad'' \<and> mood_intensity m = 3"
    by (simp add: sampleMood_def) blast
  moreover from spec [of "sampleMood ''Joyful'' 7 None"]
  have "logMood sampleClock sampleStore 1 (sampleMood ''Joyful'' 7 None)
     = (Failure ''Invalid mood selected'', sampleStore)"
    by (simp add: sampleMood_def moodCategories_def)
  moreover from spec [of "sampleMood ''Happy'' 11 None"]
  have "logMood sampleClock sampleStore 1 (sampleMood ''Happy'' 11 None)
     = (Failure ''Intensity must be between 1 and 10'', sampleStore)"
    by (simp add: sampleMood_def moodCategories_def)
  ultimately show ?thesis using run by blast
qed

section \<open>The streak\<close>

lemma distinct_insert_cmp: "distinct (insert_cmp cmp x xs) \<longleftrightarrow> x \<notin> set xs \<and> distinct xs"
  by (induction xs) (auto simp: set_insert_cmp)

lemma distinct_js_sort: "distinct (js_sort cmp xs) \<longleftrightarrow> distinct xs"
  by (induction xs) (auto simp: js_sort_def distinct_insert_cmp set_js_sort [unfolded js_sort_def])

lemma set_set_add_all: "set (set_add_all acc xs) = set acc \<union> set xs"
  by (induction xs arbitrary: acc) auto

lemma distinct_set_add_all: "distinct acc \<Longrightarrow> distinct (set_add_all acc xs)"
  by (induction xs arbitrary: acc) auto

lemma set_new_Set: "set (new_Set xs) = set xs"
  by (simp add: new_Set_def set_set_add_all)

lemma distinct_new_Set: "distinct (new_Set xs)"
  by (simp add: new_Set_def distinct_set_add_all)

lemma sorted_insert_cmp:
  assumes "\<forall>y \<in> set (x # xs). p y \<noteq> None"
    and "sorted_wrt (\<lambda>a b. the (p b) \<le> the (p a)) xs"
  shows "sorted_wrt (\<lambda>a b. the (p b) \<le> the (p a))
           (insert_cmp (\<lambda>a b. date_diff (p b) (p a)) x xs)"
  using assms
proof (induction xs)
  case Nil
  then show ?case by simp
next
  case (Cons y ys)
  from Cons.prems obtain s t where st: "p x = Some s" "p y = Some t" by auto
  show ?case
  proof (cases "date_diff (p y) (p x) \<le> 0")
    case True
    with st have "t \<le> s" by (simp add: date_diff_def)
    with Cons.prems st True show ?thesis by auto
  next
    case False
    with st have "s \<le> t" by (simp add: date_diff_def)
    with Cons st False show ?thesis
      by (auto simp: set_insert_cmp)
  qed
qed

lemma sorted_js_sort:
  "\<forall>y \<in> set xs. p y \<noteq> None \<Longrightarrow>
   sorted_wrt (\<lambda>a b. the (p b) \<le> the (p a)) (js_sort (\<lambda>a b. date_diff (p b) (p a)) xs)"
proof (induction xs)
  case Nil
  then show ?case by (simp add: js_sort_def)
next
  case (Cons x xs)
  have "js_sort (\<lambda>a b. date_diff (p b) (p a)) (x # xs)
      = insert_cmp (\<lambda>a b. date_diff (p b) (p a)) x (js_sort (\<lambda>a b. date_diff (p b) (p a)) xs)"
    by (simp add: js_sort_def)
  moreover have "sorted_wrt (\<lambda>a b. the (p b) \<le> the (p a))
       (insert_cmp (\<lambda>a b. date_diff (p b) (p a)) x (js_sort (\<lambda>a b. date_diff (p b) (p a)) xs))"
    using Cons by (intro sorted_insert_cmp) (auto simp: set_js_sort)
  ultimately show ?case by simp
qed

lemma streakLoop_lower:
  "streak \<le> streakLoop clk cur ds streak \<and>
   (\<forall>k. streak \<le> k \<and> k < streakLoop clk cur ds streak \<longrightarrow>
        (\<exists>d \<in> set ds. diffDays clk cur d = Some k))"
proof (induction ds arbitrary: streak)
  case Nil
  then show ?case by simp
next
  case (Cons d ds)
  show ?case
  proof (cases "diffDays clk cur d = Some streak")
    case True
    from Cons [of "streak + 1"]
    have le: "streak + 1 \<le> streakLoop clk cur ds (streak + 1)"
      and ih: "\<And>k. streak + 1 \<le> k \<Longrightarrow> k < streakLoop clk cur ds (streak + 1) \<Longrightarrow>
                  \<exists>d \<in> set ds. diffDays clk cur d = Some k"
      by blast+
    have "\<exists>e \<in> set (d # ds). diffDays clk cur e = Some k"
      if "streak \<le> k" "k < streakLoop clk cur ds (streak + 1)" for k
    proof (cases "k = streak")
      case True
      with \<open>diffDays clk cur d = Some streak\<close> show ?thesis by simp
    next
      case False
      with that have "streak + 1 \<le> k" by simp
      from ih [OF this that(2)] show ?thesis by auto
    qed
    with le True show ?thesis by simp
  next
    case False
    then show ?thesis by auto
  qed
qed

lemma streakLoop_stops:
  assumes "sorted_wrt (\<lambda>a b. \<exists>i j. diffDays clk cur a = Some i \<and> diffDays clk cur b = Some j \<and> i < j) ds"
    and "\<forall>d \<in> set ds. \<exists>i. diffDays clk cur d = Some i \<and> streak \<le> i"
  shows "\<not> (\<exists>d \<in> set ds. diffDays clk cur d = Some (streakLoop clk cur ds streak))"
  using assms
proof (induction ds arbitrary: streak)
  case Nil
  then show ?case by simp
next
  case (Cons d ds)
  from Cons.prems(2) obtain i where i: "diffDays clk cur d = Some i" "streak \<le> i" by auto
  have later: "\<forall>e \<in> set ds. \<exists>j. diffDays clk cur e = Some j \<and> i < j"
    using Cons.prems(1) i by auto
  show ?case
  proof (cases "i = streak")
    case True
    have "\<forall>e \<in> set ds. \<exists>j. diffDays clk cur e = Some j \<and> streak + 1 \<le> j"
      using later True by auto
    with Cons.IH [of "streak + 1"] Cons.prems(1)
    have "\<not> (\<exists>e \<in> set ds. diffDays clk cur e = Some (streakLoop clk cur ds (streak + 1)))"
      by simp
    moreover have "streak + 1 \<le> streakLoop clk cur ds (streak + 1)"
      using streakLoop_lower [of "streak + 1" clk cur ds] by simp
    ultimately show ?thesis using i True by auto
  next
    case False
    with i have "streak < i" by simp
    with later i False show ?thesis by fastforce
  qed
qed

lemma sorted_wrt_distinct:
  "sorted_wrt R xs \<Longrightarrow> distinct xs \<Longrightarrow> sorted_wrt (\<lambda>a b. R a b \<and> a \<noteq> b) xs"
  by (induction xs) auto

lemma diffDays_parse: "diffDays clk cur d = Some k \<Longrightarrow> parse clk d \<noteq> None"
  by (auto simp: diffDays_def split: option.splits)

lemma diffDays_antimono:
  assumes mono: "\<forall>s t. s \<le> t \<longrightarrow> startOfDay clk s \<le> startOfDay clk t"
    and a: "diffDays clk cur a = Some i" and b: "diffDays clk cur b = Some j"
    and le: "the (parse clk b) \<le> the (parse clk a)"
  shows "i \<le> j"
proof -
  from a obtain s where s: "parse clk a = Some s" "i = (cur - startOfDay clk s) div 86400000"
    by (auto simp: diffDays_def split: option.splits)
  from b obtain t where t: "parse clk b = Some t" "j = (cur - startOfDay clk t) div 86400000"
    by (auto simp: diffDays_def split: option.splits)
  from le s t have "t \<le> s" by simp
  with mono have "startOfDay clk t \<le> startOfDay clk s" by blast
  then have "cur - startOfDay clk s \<le> cur - startOfDay clk t" by simp
  then show ?thesis unfolding s t by (rule zdiv_mono1) simp
qed

lemma calculateStreak_loop:
  "calculateStreak clk ms =
     streakLoop clk (startOfDay clk (now clk))
       (js_sort (\<lambda>a b. date_diff (parse clk b) (parse clk a)) (new_Set (map mood_date ms))) 0"
  by (cases ms) (simp_all add: calculateStreak_def js_sort_def new_Set_def Let_def)

text \<open>
  What the loop counts, in the day offsets \<^verbatim>\<open>calculateStreak\<close> itself computes
  (\<^verbatim>\<open>diffDays\<close>, the floor of a difference of two \<^verbatim>\<open>setHours\<close> results): a positive streak
  needs a date at offset 0.
\<close>

lemma calculateStreak_positive:
  assumes "calculateStreak clk ms \<noteq> 0"
  shows "\<exists>m \<in> set ms. diffDays clk (startOfDay clk (now clk)) (mood_date m) = Some 0"
proof -
  let ?ds = "js_sort (\<lambda>a b. date_diff (parse clk b) (parse clk a)) (new_Set (map mood_date ms))"
  note lower = streakLoop_lower [of 0 clk "startOfDay clk (now clk)" ?ds]
  from assms lower have "0 < streakLoop clk (startOfDay clk (now clk)) ?ds 0"
    by (simp add: calculateStreak_loop)
  with lower have "\<exists>d \<in> set ?ds. diffDays clk (startOfDay clk (now clk)) d = Some 0" by simp
  then show ?thesis by (simp only: set_js_sort set_new_Set) auto
qed

text \<open>
  When every date is valid with an offset of 0 or more, distinct dates have distinct
  offsets and \<^verbatim>\<open>setHours(0, 0, 0, 0)\<close> is monotone, the streak \<open>n\<close> is the length of the run
  of offsets from 0: each of \<open>0, ..., n - 1\<close> is the offset of some entry, \<open>n\<close> is not.
\<close>

lemma calculateStreak_offsets:
  assumes valid: "\<forall>m \<in> set ms. \<exists>k. diffDays clk (startOfDay clk (now clk)) (mood_date m) = Some k \<and> 0 \<le> k"
    and inj: "inj_on (diffDays clk (startOfDay clk (now clk))) (mood_date ` set ms)"
    and mono: "\<forall>s t. s \<le> t \<longrightarrow> startOfDay clk s \<le> startOfDay clk t"
  shows "0 \<le> calculateStreak clk ms \<and>
         (\<forall>k. 0 \<le> k \<and> k < calculateStreak clk ms \<longrightarrow>
              (\<exists>m \<in> set ms. diffDays clk (startOfDay clk (now clk)) (mood_date m) = Some k)) \<and>
         \<not> (\<exists>m \<in> set ms. diffDays clk (startOfDay clk (now clk)) (mood_date m)
                            = Some (calculateStreak clk ms))"
proof -
  let ?cmp = "\<lambda>a b. date_diff (parse clk b) (parse clk a)"
  let ?ds = "js_sort ?cmp (new_Set (map mood_date ms))"
  let ?dd = "diffDays clk (startOfDay clk (now clk))"
  note n = calculateStreak_loop [of clk ms]
  have set_ds: "set ?ds = mood_date ` set ms"
    by (simp add: set_js_sort set_new_Set)
  have dist: "distinct ?ds"
    by (simp add: distinct_js_sort distinct_new_Set)
  have has: "(\<exists>m \<in> set ms. ?dd (mood_date m) = Some k) \<longleftrightarrow> (\<exists>d \<in> set ?ds. ?dd d = Some k)" for k
    by (simp only: set_ds) auto
  have val: "\<forall>d \<in> set ?ds. \<exists>i. ?dd d = Some i \<and> 0 \<le> i"
    using valid by (simp only: set_ds) auto
  then have "\<forall>d \<in> set (new_Set (map mood_date ms)). parse clk d \<noteq> None"
    by (simp only: set_js_sort) (meson diffDays_parse)
  then have "sorted_wrt (\<lambda>a b. the (parse clk b) \<le> the (parse clk a)) ?ds"
    by (rule sorted_js_sort)
  then have "sorted_wrt (\<lambda>a b. the (parse clk b) \<le> the (parse clk a) \<and> a \<noteq> b) ?ds"
    using dist by (rule sorted_wrt_distinct)
  then have strict: "sorted_wrt (\<lambda>a b. \<exists>i j. ?dd a = Some i \<and> ?dd b = Some j \<and> i < j) ?ds"
  proof (rule sorted_wrt_mono_rel [rotated])
    fix a b
    assume a: "a \<in> set ?ds" and b: "b \<in> set ?ds"
      and r: "the (parse clk b) \<le> the (parse clk a) \<and> a \<noteq> b"
    from val a b obtain i j where ij: "?dd a = Some i" "?dd b = Some j" by blast
    from diffDays_antimono [OF mono ij] r have "i \<le> j" by simp
    moreover from inj a b r have "?dd a \<noteq> ?dd b"
      by (simp only: set_ds) (meson inj_onD)
    ultimately show "\<exists>i j. ?dd a = Some i \<and> ?dd b = Some j \<and> i < j"
      using ij by auto
  qed
  note lower = streakLoop_lower [of 0 clk "startOfDay clk (now clk)" ?ds]
  note stops = streakLoop_stops [OF strict val]
  from lower stops show ?thesis
    unfolding n has by blast
qed

subsection \<open>Offsets and calendar days in a zone\<close>

lemma utc_date_calendarDay: "utc_date s = map_option (\<lambda>d. d * 86400000) (calendarDay s)"
  by (simp add: utc_date_def calendarDay_def split: option.splits)

text \<open>
  In a zone at UTC plus \<open>offset\<close> the offset the code gives a date-only string is its
  calendar distance from the local today, less \<open>offset div 86400000\<close>: the string is read
  as midnight UTC, which west of Greenwich is an evening of the day before.
\<close>

lemma diffDays_zoneClock:
  assumes "length s = 10"
  shows "diffDays (zoneClock offset t stamp) (startOfDay (zoneClock offset t stamp) t) s
           = map_option (\<lambda>k. k - offset div 86400000) (daysAgo offset t s)"
proof (cases "calendarDay s")
  case None
  with assms show ?thesis
    by (simp add: diffDays_def zoneClock_def zone_parse_def daysAgo_def utc_date_calendarDay)
next
  case (Some D)
  define v where "v = D * 86400000"
  have a: "t - (t + offset) mod 86400000 = 86400000 * ((t + offset) div 86400000) - offset"
    using minus_mod_eq_mult_div [of "t + offset" 86400000] by simp
  have "(v + offset) mod 86400000 = offset mod 86400000"
    unfolding v_def by simp
  then have b: "v - (v + offset) mod 86400000 = 86400000 * D - offset + 86400000 * (offset div 86400000)"
    using minus_mod_eq_mult_div [of offset 86400000] by (simp add: v_def)
  have "(t - (t + offset) mod 86400000) - (v - (v + offset) mod 86400000)
          = 86400000 * ((t + offset) div 86400000 - D - offset div 86400000)"
    unfolding a b by (simp add: algebra_simps)
  then have "((t - (t + offset) mod 86400000) - (v - (v + offset) mod 86400000)) div 86400000
          = (t + offset) div 86400000 - D - offset div 86400000"
    by simp
  with assms Some show ?thesis
    by (simp add: diffDays_def zoneClock_def zone_parse_def daysAgo_def utc_date_calendarDay
        localDay_def v_def)
qed

text \<open>From UTC eastwards (up to a day) the offsets are the calendar's.\<close>

lemma diffDays_east:
  assumes "length s = 10" and "0 \<le> offset" and "offset < 86400000"
  shows "diffDays (zoneClock offset t stamp) (startOfDay (zoneClock offset t stamp) t) s
           = daysAgo offset t s"
proof -
  from assms(2,3) have "offset div 86400000 = 0" by simp
  then show ?thesis
    by (simp add: diffDays_zoneClock [OF assms(1)] option.map_ident)
qed

text \<open>West of UTC every date is counted one day further back than it lies.\<close>

lemma diffDays_west:
  assumes "length s = 10" and "- 86400000 \<le> offset" and "offset < 0"
  shows "diffDays (zoneClock offset t stamp) (startOfDay (zoneClock offset t stamp) t) s
           = map_option (\<lambda>k. k + 1) (daysAgo offset t s)"
proof -
  from assms(2,3) have "offset div 86400000 = - 1"
    by (simp add: div_eq_minus1)
  then show ?thesis
    by (simp add: diffDays_zoneClock [OF assms(1)])
qed

lemma zoneClock_mono:
  "s \<le> t \<Longrightarrow> startOfDay (zoneClock offset n stamp) s \<le> startOfDay (zoneClock offset n stamp) t"
proof -
  assume "s \<le> t"
  then have "(s + offset) div 86400000 \<le> (t + offset) div 86400000"
    by (intro zdiv_mono1) simp_all
  then have "86400000 * ((s + offset) div 86400000) \<le> 86400000 * ((t + offset) div 86400000)"
    by simp
  moreover have "x - (x + offset) mod 86400000 = 86400000 * ((x + offset) div 86400000) - offset" for x
    using minus_mod_eq_mult_div [of "x + offset" 86400000] by simp
  ultimately show ?thesis
    by (simp add: zoneClock_def)
qed

text \<open>
  So from UTC eastwards the code does what the claim says, for entries none of which is
  dated after today and whose date strings name different days: the streak \<open>n\<close> is the
  number of consecutive calendar days, from the local today backwards, that have an entry.
\<close>

lemma calculateStreak_east_of_utc:
  assumes east: "0 \<le> offset" "offset < 86400000"
    and valid: "\<forall>m \<in> set ms. length (mood_date m) = 10 \<and>
                  (\<exists>k. daysAgo offset t (mood_date m) = Some k \<and> 0 \<le> k)"
    and inj: "inj_on calendarDay (mood_date ` set ms)"
  shows "0 \<le> calculateStreak (zoneClock offset t stamp) ms \<and>
         (\<forall>k. 0 \<le> k \<and> k < calculateStreak (zoneClock offset t stamp) ms \<longrightarrow>
              (\<exists>m \<in> set ms. daysAgo offset t (mood_date m) = Some k)) \<and>
         \<not> (\<exists>m \<in> set ms. daysAgo offset t (mood_date m)
                            = Some (calculateStreak (zoneClock offset t stamp) ms))"
proof -
  let ?clk = "zoneClock offset t stamp"
  have now: "now ?clk = t" by (simp add: zoneClock_def)
  have dd: "diffDays ?clk (startOfDay ?clk (now ?clk)) (mood_date m) = daysAgo offset t (mood_date m)"
    if "m \<in> set ms" for m
    using that valid by (simp add: now diffDays_east [OF _ east])
  have v: "\<forall>m \<in> set ms. \<exists>k. diffDays ?clk (startOfDay ?clk (now ?clk)) (mood_date m) = Some k \<and> 0 \<le> k"
    using valid dd by simp
  have i: "inj_on (diffDays ?clk (startOfDay ?clk (now ?clk))) (mood_date ` set ms)"
  proof (rule inj_onI)
    fix a b
    assume a: "a \<in> mood_date ` set ms" and b: "b \<in> mood_date ` set ms"
      and eq: "diffDays ?clk (startOfDay ?clk (now ?clk)) a = diffDays ?clk (startOfDay ?clk (now ?clk)) b"
    from a b dd eq have e: "daysAgo offset t a = daysAgo offset t b" by auto
    from a valid obtain k where "daysAgo offset t a = Some k" by auto
    with e have "calendarDay a = calendarDay b"
      by (auto simp: daysAgo_def)
    with inj a b show "a = b" by (meson inj_onD)
  qed
  have m: "\<forall>s u. s \<le> u \<longrightarrow> startOfDay ?clk s \<le> startOfDay ?clk u"
    by (simp add: zoneClock_mono)
  from calculateStreak_offsets [OF v i m] dd show ?thesis
    by simp
qed

text \<open>
  West of UTC it does not: whatever entries there are for today and the days before, the
  streak is 0 unless some entry is dated tomorrow.
\<close>

lemma calculateStreak_west_zero:
  assumes "- 86400000 \<le> offset" and "offset < 0"
    and "\<forall>m \<in> set ms. length (mood_date m) = 10 \<and> daysAgo offset t (mood_date m) \<noteq> Some (- 1)"
  shows "calculateStreak (zoneClock offset t stamp) ms = 0"
proof (rule ccontr)
  assume "calculateStreak (zoneClock offset t stamp) ms \<noteq> 0"
  from calculateStreak_positive [OF this] obtain m where m: "m \<in> set ms"
    and "diffDays (zoneClock offset t stamp) (startOfDay (zoneClock offset t stamp) t) (mood_date m) = Some 0"
    by (auto simp: zoneClock_def)
  moreover from m assms(3) have "length (mood_date m) = 10" by simp
  ultimately have "map_option (\<lambda>k. k + 1) (daysAgo offset t (mood_date m)) = Some 0"
    by (simp add: diffDays_west [OF _ assms(1,2)])
  then have "daysAgo offset t (mood_date m) = Some (- 1)" by auto
  with m assms(3) show False by simp
qed

text \<open>
  Claim C9. The streak is the number of consecutive days with an entry, counted back from
  today; entries on today, yesterday and three days ago yield a streak of 2. The code
  misses this west of UTC. For the entries dated 2025-06-28, 2025-06-30 and 2025-07-01 the
  calendar counts 3, 1 and 0 days back from 2025-07-01, in UTC as in a zone five hours
  behind it. At midnight UTC of that day \<^verbatim>\<open>calculateStreak\<close> returns 2; at noon of that day
  in the zone five hours behind UTC it returns 0, where the claim says 2:
  \<^verbatim>\<open>new Date('2025-07-01')\<close> is midnight UTC, 19:00 of 2025-06-30 there,
  \<^verbatim>\<open>setHours(0, 0, 0, 0)\<close> takes it to the local midnight of 2025-06-30, one day before the
  local midnight of today, and the loop leaves at the first date.
\<close>

theorem calculateStreak_west_of_utc:
  "map (daysAgo 0 (now sampleClock) \<circ> mood_date) sampleMoods = [Some 3, Some 1, Some 0] \<and>
   calculateStreak sampleClock sampleMoods = 2 \<and>
   map (daysAgo (- 18000000) (now westClock) \<circ> mood_date) sampleMoods = [Some 3, Some 1, Some 0] \<and>
   calculateStreak westClock sampleMoods = 0"
  by code_simp

text \<open>
  The loop walks the dates, not the days, so it also misses the count when an entry is
  dated after today: that entry stands first in the descending list, its offset is not 0
  and the loop ends. With entries for today and tomorrow the streak is 0 in UTC.
\<close>

lemma calculateStreak_future_entry:
  "map (daysAgo 0 (now sampleClock) \<circ> mood_date)
       [mkMood 1 ''2025-07-01'' 6, mkMood 2 ''2025-07-02'' 6] = [Some 0, Some (- 1)] \<and>
   calculateStreak sampleClock [mkMood 1 ''2025-07-01'' 6, mkMood 2 ''2025-07-02'' 6] = 0"
  by code_simp

section \<open>Double arithmetic\<close>

















section \<open>The trend\<close>










text \<open>
  Rounded means 0.5 apart: stable for 2.1 against 1.6 (above), improving for 4.4 against
  3.9, whose doubles differ by more than 0.5.
\<close>

lemma half_point_either_way:
  "tenths (slice_last7 (trendSample [2, 2, 2, 2, 1, 1, 1, 3, 2, 2, 2, 2, 2, 2])) -
   tenths (slice_prev7 (trendSample [2, 2, 2, 2, 1, 1, 1, 3, 2, 2, 2, 2, 2, 2])) = 5"
  "tenths (slice_last7 (trendSample [4, 4, 4, 4, 4, 4, 3, 5, 5, 5, 4, 4, 4, 4])) -
   tenths (slice_prev7 (trendSample [4, 4, 4, 4, 4, 4, 3, 5, 5, 5, 4, 4, 4, 4])) = 5"
  "getMoodTrend (trendSample [4, 4, 4, 4, 4, 4, 3, 5, 5, 5, 4, 4, 4, 4]) = ''improving''"
  by code_simp+

end
